theory Spec2Isabelle
  imports Main
begin

section \<open>Characters and strings\<close>

text \<open>
  A Python \<^verbatim>\<open>str\<close> is a sequence of code points. The model reads an Isabelle
  \<^typ>\<open>char\<close> as one code point in the range U+0000 to U+00FF; on that range the
  classes below are the ones of Python's \<^verbatim>\<open>re\<close> module and of
  \<^verbatim>\<open>str.lower\<close> / \<^verbatim>\<open>str.strip\<close>. Code points above U+00FF are outside the
  model.
\<close>

text \<open>\<^verbatim>\<open>\s\<close> and the characters removed by \<^verbatim>\<open>str.strip()\<close>.\<close>

definition is_space :: "char \<Rightarrow> bool" where
  "is_space c \<longleftrightarrow> c \<in> set [CHR 0x09, CHR 0x0A, CHR 0x0B, CHR 0x0C, CHR 0x0D,
     CHR 0x1C, CHR 0x1D, CHR 0x1E, CHR 0x1F, CHR 0x20, CHR 0x85, CHR 0xA0]"

text \<open>\<^verbatim>\<open>\d\<close>.\<close>

definition is_digit :: "char \<Rightarrow> bool" where
  "is_digit c \<longleftrightarrow> c \<in> set ''0123456789''"

text \<open>\<^verbatim>\<open>\w\<close>: alphanumeric code points and the underscore.\<close>

definition is_word :: "char \<Rightarrow> bool" where
  "is_word c \<longleftrightarrow>
     (let n = (of_char c :: nat)
      in (48 \<le> n \<and> n \<le> 57) \<or> (65 \<le> n \<and> n \<le> 90) \<or> n = 95 \<or> (97 \<le> n \<and> n \<le> 122)
         \<or> n \<in> set [170, 178, 179, 181, 185, 186, 188, 189, 190]
         \<or> (192 \<le> n \<and> n \<le> 214) \<or> (216 \<le> n \<and> n \<le> 246) \<or> 248 \<le> n)"

text \<open>\<^verbatim>\<open>.\<close> without the DOTALL flag: anything but a newline.\<close>

definition not_newline :: "char \<Rightarrow> bool" where
  "not_newline c \<longleftrightarrow> c \<noteq> CHR 0x0A"

text \<open>\<^verbatim>\<open>str.lower()\<close>, one code point at a time (no code point below U+0100 changes
  length): A to Z, and U+00C0 to U+00DE except U+00D7.\<close>

definition lower_char :: "char \<Rightarrow> char" where
  "lower_char c =
     (let n = (of_char c :: nat)
      in if (65 \<le> n \<and> n \<le> 90) \<or> (192 \<le> n \<and> n \<le> 222 \<and> n \<noteq> 215)
         then char_of (n + 32) else c)"

definition lower :: "string \<Rightarrow> string" where
  "lower s = map lower_char s"

definition strip :: "string \<Rightarrow> string" where
  "strip s = rev (dropWhile is_space (rev (dropWhile is_space s)))"

fun startswith :: "string \<Rightarrow> string \<Rightarrow> bool" where
  "startswith s [] = True"
| "startswith [] (k # ks) = False"
| "startswith (x # xs) (k # ks) = (x = k \<and> startswith xs ks)"

text \<open>\<^verbatim>\<open>k in s\<close> on strings: \<open>k\<close> occurs in \<open>s\<close> as a contiguous substring.\<close>

fun contains :: "string \<Rightarrow> string \<Rightarrow> bool" where
  "contains [] k = startswith [] k"
| "contains (x # xs) k = (startswith (x # xs) k \<or> contains xs k)"

datatype error = ValueError | OverflowError

text \<open>The value of one decimal digit.\<close>

definition digit_val :: "char \<Rightarrow> int" where
  "digit_val c = int (of_char c) - 48"

text \<open>The number that a string of decimal digits denotes.\<close>

definition digits_value :: "string \<Rightarrow> int" where
  "digits_value s = foldl (\<lambda>a c. 10 * a + digit_val c) 0 s"

text \<open>The longest digit string that \<^verbatim>\<open>int()\<close> converts: the interpreter's default for
  \<^verbatim>\<open>sys.get_int_max_str_digits()\<close>. Leading zeros count.\<close>

definition int_max_str_digits :: nat where
  "int_max_str_digits = 4300"

text \<open>\<^verbatim>\<open>int(s)\<close> for a string of decimal digits, the only strings the program passes
  to it (captures of \<^verbatim>\<open>\d+\<close> and \<^verbatim>\<open>\d{1,2}\<close>): the number the digits denote, and
  \<^verbatim>\<open>ValueError\<close> when there are more than \<open>int_max_str_digits\<close> of them. Any other
  string is reported as \<open>ValueError\<close> too.\<close>

definition py_int :: "string \<Rightarrow> error + int" where
  "py_int s =
     (if s \<noteq> [] \<and> list_all is_digit s \<and> length s \<le> int_max_str_digits
      then Inr (digits_value s)
      else Inl ValueError)"

section \<open>Regular expressions\<close>

text \<open>
  The fragment of Python's \<^verbatim>\<open>re\<close> syntax that the program uses, with the
  backtracking semantics of the module: \<open>rmatch r c s\<close> lists every way \<open>r\<close> can match
  a prefix of \<open>s\<close>, in the order in which the backtracking matcher tries them, each with
  the capture groups set so far and the unmatched rest. The first entry is the match
  that \<^verbatim>\<open>re.match\<close> reports.
\<close>

datatype regex =
    Eps
  | Cls "char \<Rightarrow> bool"
  | Seq regex regex
  | Alt regex regex
  | Opt regex
  | Rep nat "nat option" "char \<Rightarrow> bool"
  | RepLazy nat "char \<Rightarrow> bool"
  | Grp nat regex
  | Eos

type_synonym groups = "nat \<Rightarrow> string option"

fun rmatch :: "regex \<Rightarrow> groups \<Rightarrow> string \<Rightarrow> (groups \<times> string) list" where
  "rmatch Eps c s = [(c, s)]"
| "rmatch (Cls p) c s = (case s of [] \<Rightarrow> [] | x # xs \<Rightarrow> if p x then [(c, xs)] else [])"
| "rmatch (Seq a b) c s = concat (map (\<lambda>m. rmatch b (fst m) (snd m)) (rmatch a c s))"
| "rmatch (Alt a b) c s = rmatch a c s @ rmatch b c s"
| "rmatch (Opt a) c s = rmatch a c s @ [(c, s)]"
| "rmatch (Rep lo hi p) c s =
     (let n = length (takeWhile p s);
          m = (case hi of None \<Rightarrow> n | Some h \<Rightarrow> min h n)
      in map (\<lambda>k. (c, drop k s)) (rev [lo ..< Suc m]))"
| "rmatch (RepLazy lo p) c s =
     (let n = length (takeWhile p s)
      in map (\<lambda>k. (c, drop k s)) [lo ..< Suc n])"
| "rmatch (Grp i a) c s =
     map (\<lambda>m. ((fst m)(i := Some (take (length s - length (snd m)) s)), snd m)) (rmatch a c s)"
| "rmatch Eos c s = (if s = [] \<or> s = [CHR 0x0A] then [(c, s)] else [])"

text \<open>A literal string, and the same under \<^verbatim>\<open>re.IGNORECASE\<close>.\<close>

fun Lit :: "string \<Rightarrow> regex" where
  "Lit [] = Eps"
| "Lit (k # ks) = Seq (Cls (\<lambda>x. x = k)) (Lit ks)"

fun LitI :: "string \<Rightarrow> regex" where
  "LitI [] = Eps"
| "LitI (k # ks) = Seq (Cls (\<lambda>x. lower_char x = lower_char k)) (LitI ks)"

fun Seqs :: "regex list \<Rightarrow> regex" where
  "Seqs [] = Eps"
| "Seqs [r] = r"
| "Seqs (r # rs) = Seq r (Seqs rs)"

fun Alts :: "regex list \<Rightarrow> regex" where
  "Alts [] = Eps"
| "Alts [r] = r"
| "Alts (r # rs) = Alt r (Alts rs)"

text \<open>\<^verbatim>\<open>re.match\<close>: the first way to match at the start of the string.\<close>

definition re_match :: "regex \<Rightarrow> string \<Rightarrow> (groups \<times> string) option" where
  "re_match r s = (case rmatch r (\<lambda>_. None) s of [] \<Rightarrow> None | m # _ \<Rightarrow> Some m)"

text \<open>\<^verbatim>\<open>re.search\<close>: the match at the leftmost position that has one (the position
  after the last character included).\<close>

fun re_search :: "regex \<Rightarrow> string \<Rightarrow> (groups \<times> string) option" where
  "re_search r [] = re_match r []"
| "re_search r (x # xs) =
     (case re_match r (x # xs) of Some m \<Rightarrow> Some m | None \<Rightarrow> re_search r xs)"

text \<open>\<^verbatim>\<open>re.sub(pattern, '', s)\<close>: every non-overlapping match, leftmost first, is
  deleted. A match of the empty string deletes nothing and the scan moves on by one
  character.\<close>

fun re_sub_del :: "regex \<Rightarrow> string \<Rightarrow> string" where
  "re_sub_del r [] = []"
| "re_sub_del r (x # xs) =
     (case re_match r (x # xs) of
        None \<Rightarrow> x # re_sub_del r xs
      | Some m \<Rightarrow>
          if length (snd m) < length (x # xs) then re_sub_del r (snd m)
          else x # re_sub_del r xs)"

text \<open>\<^verbatim>\<open>match.group(i)\<close>.\<close>

definition group :: "(groups \<times> string) \<Rightarrow> nat \<Rightarrow> string option" where
  "group m i = fst m i"

section \<open>Dates and times\<close>

text \<open>
  A \<^verbatim>\<open>datetime\<close> value. The calendar date is held as its proleptic Gregorian ordinal
  (what \<^verbatim>\<open>date.toordinal()\<close> returns: day 1 is 0001-01-01, day \<open>MAXORD\<close> is
  9999-12-31), so that adding a \<^verbatim>\<open>timedelta\<close> of whole days is addition on the
  ordinal. \<^verbatim>\<open>isoformat()\<close> renders a value one-to-one as text; the model keeps the
  value itself where the program keeps the text.
\<close>

record datetime =
  day_ord :: int
  hour :: int
  minute :: int
  second :: int
  microsecond :: int

definition MAXORD :: int where
  "MAXORD = 3652059"

definition valid_datetime :: "datetime \<Rightarrow> bool" where
  "valid_datetime d \<longleftrightarrow>
     1 \<le> day_ord d \<and> day_ord d \<le> MAXORD \<and> 0 \<le> hour d \<and> hour d < 24 \<and>
     0 \<le> minute d \<and> minute d < 60 \<and> 0 \<le> second d \<and> second d < 60 \<and>
     0 \<le> microsecond d \<and> microsecond d < 1000000"

text \<open>\<^verbatim>\<open>d.replace(hour=h, minute=m, second=0, microsecond=0)\<close>: raises
  \<^verbatim>\<open>ValueError\<close> when the hour is not in 0..23 or the minute not in 0..59.\<close>

definition replace_time :: "datetime \<Rightarrow> int \<Rightarrow> int \<Rightarrow> error + datetime" where
  "replace_time d h m =
     (if 0 \<le> h \<and> h < 24 \<and> 0 \<le> m \<and> m < 60
      then Inr (d\<lparr>hour := h, minute := m, second := 0, microsecond := 0\<rparr>)
      else Inl ValueError)"

text \<open>\<^verbatim>\<open>d + timedelta(seconds=n)\<close> for \<open>n \<ge> 0\<close>: the time of day is carried into
  the date; \<^verbatim>\<open>OverflowError\<close> when the date leaves the supported range (building a
  \<^verbatim>\<open>timedelta\<close> longer than 999999999 days raises the same error and would leave the
  range as well).\<close>

definition add_seconds :: "datetime \<Rightarrow> int \<Rightarrow> error + datetime" where
  "add_seconds d n =
     (let t = hour d * 3600 + minute d * 60 + second d + n;
          o' = day_ord d + t div 86400;
          r = t mod 86400
      in if 1 \<le> o' \<and> o' \<le> MAXORD
         then Inr (d\<lparr>day_ord := o', hour := r div 3600, minute := (r mod 3600) div 60,
                     second := r mod 60\<rparr>)
         else Inl OverflowError)"

text \<open>\<^verbatim>\<open>d + timedelta(days=n)\<close>.\<close>

definition add_days :: "datetime \<Rightarrow> int \<Rightarrow> error + datetime" where
  "add_days d n = add_seconds d (n * 86400)"

text \<open>\<^verbatim>\<open>a <= b\<close> on \<^verbatim>\<open>datetime\<close> values.\<close>

definition dt_le :: "datetime \<Rightarrow> datetime \<Rightarrow> bool" where
  "dt_le a b \<longleftrightarrow>
     day_ord a < day_ord b \<or> (day_ord a = day_ord b \<and>
     (hour a < hour b \<or> (hour a = hour b \<and>
     (minute a < minute b \<or> (minute a = minute b \<and>
     (second a < second b \<or> (second a = second b \<and>
      microsecond a \<le> microsecond b)))))))"

section \<open>Task manager: parsing an utterance\<close>

text \<open>\<^verbatim>\<open>self.priority_keywords\<close>, in the insertion order that iterating the
  dictionary follows.\<close>

definition priority_keywords :: "(string \<times> string list) list" where
  "priority_keywords =
     [(''high'', [''urgent'', ''asap'', ''immediately'', ''critical'', ''important'', ''high'']),
      (''medium'', [''normal'', ''regular'', ''medium'']),
      (''low'', [''low'', ''later'', ''whenever'', ''optional''])]"

text \<open>\<^verbatim>\<open>(\d{1,2})(?::(\d{2}))?\s*(am|pm)?\<close>\<close>

definition time_pattern :: regex where
  "time_pattern =
     Seqs [Grp 1 (Rep 1 (Some 2) is_digit),
           Opt (Seq (Lit '':'') (Grp 2 (Rep 2 (Some 2) is_digit))),
           Rep 0 None is_space,
           Opt (Grp 3 (Alt (Lit ''am'') (Lit ''pm'')))]"

text \<open>\<^verbatim>\<open>\d{1,2}(?::\d{2})?\s*(?:am|pm|AM|PM)?\<close>, the clock time shared by the
  \<open>by\<close> and \<open>at\<close> patterns.\<close>

definition clock_rx :: regex where
  "clock_rx =
     Seqs [Rep 1 (Some 2) is_digit,
           Opt (Seq (Lit '':'') (Rep 2 (Some 2) is_digit)),
           Rep 0 None is_space,
           Opt (Alts [Lit ''am'', Lit ''pm'', Lit ''AM'', Lit ''PM''])]"

text \<open>\<^verbatim>\<open>by\s+(\d{1,2}(?::\d{2})?\s*(?:am|pm|AM|PM)?|tomorrow|today|next\s+\w+)\<close>\<close>

definition by_pattern :: regex where
  "by_pattern =
     Seqs [Lit ''by'', Rep 1 None is_space,
           Grp 1 (Alts [clock_rx, Lit ''tomorrow'', Lit ''today'',
                        Seqs [Lit ''next'', Rep 1 None is_space, Rep 1 None is_word]])]"

text \<open>\<^verbatim>\<open>at\s+(\d{1,2}(?::\d{2})?\s*(?:am|pm|AM|PM)?|noon|midnight)\<close>\<close>

definition at_pattern :: regex where
  "at_pattern =
     Seqs [Lit ''at'', Rep 1 None is_space,
           Grp 1 (Alts [clock_rx, Lit ''noon'', Lit ''midnight''])]"

text \<open>\<^verbatim>\<open>in\s+(\d+)\s+(minutes?|hours?|days?)\<close>\<close>

definition relative_pattern :: regex where
  "relative_pattern =
     Seqs [Lit ''in'', Rep 1 None is_space, Grp 1 (Rep 1 None is_digit), Rep 1 None is_space,
           Grp 2 (Alts [Seq (Lit ''minute'') (Opt (Lit ''s'')),
                        Seq (Lit ''hour'') (Opt (Lit ''s'')),
                        Seq (Lit ''day'') (Opt (Lit ''s''))])]"

text \<open>\<^verbatim>\<open>TaskManager._parse_time_expression\<close>. The result \<open>Inr None\<close> is the
  final \<^verbatim>\<open>return None\<close>.\<close>

definition parse_time_expression :: "string \<Rightarrow> datetime \<Rightarrow> error + datetime option" where
  "parse_time_expression time_str0 base_time =
     (let time_str = lower time_str0 in
      if time_str = ''tomorrow'' then
        (case add_days base_time 1 of
           Inl e \<Rightarrow> Inl e
         | Inr tomorrow \<Rightarrow> map_sum id Some (replace_time tomorrow 9 0))
      else if time_str = ''today'' then map_sum id Some (replace_time base_time 18 0)
      else if time_str = ''noon'' then map_sum id Some (replace_time base_time 12 0)
      else if time_str = ''midnight'' then map_sum id Some (replace_time base_time 0 0)
      else
        (case re_match time_pattern time_str of
           None \<Rightarrow> Inr None
         | Some time_match \<Rightarrow>
            (case py_int (the (group time_match 1)) of
               Inl e \<Rightarrow> Inl e
             | Inr hour0 \<Rightarrow>
            (case (case group time_match 2 of
                     None \<Rightarrow> Inr 0
                   | Some g \<Rightarrow> if g = [] then Inr 0 else py_int g) of
               Inl e \<Rightarrow> Inl e
             | Inr minute0 \<Rightarrow>
                let period = group time_match 3;
                    hour1 = (if period = Some ''pm'' \<and> hour0 \<noteq> 12 then hour0 + 12
                             else if period = Some ''am'' \<and> hour0 = 12 then 0
                             else hour0)
                in (case replace_time base_time hour1 minute0 of
                      Inl e \<Rightarrow> Inl e
                    | Inr result_time \<Rightarrow>
                        if dt_le result_time base_time
                        then map_sum id Some (add_days result_time 1)
                        else Inr (Some result_time))))))"

text \<open>\<^verbatim>\<open>TaskManager._calculate_relative_time\<close>\<close>

definition calculate_relative_time :: "int \<Rightarrow> string \<Rightarrow> datetime \<Rightarrow> error + datetime option" where
  "calculate_relative_time amount unit base_time =
     (if startswith unit ''minute'' then map_sum id Some (add_seconds base_time (amount * 60))
      else if startswith unit ''hour'' then map_sum id Some (add_seconds base_time (amount * 3600))
      else if startswith unit ''day'' then map_sum id Some (add_days base_time amount)
      else Inr None)"

text \<open>\<^verbatim>\<open>TaskManager._extract_due_date\<close>. The first argument is the value that
  \<^verbatim>\<open>datetime.now()\<close> returns in the first statement of the function; the program has
  no parameter for it.\<close>

definition extract_due_date :: "datetime \<Rightarrow> string \<Rightarrow> error + datetime option" where
  "extract_due_date now text =
     (case re_search by_pattern text of
        Some by_match \<Rightarrow> parse_time_expression (strip (the (group by_match 1))) now
      | None \<Rightarrow>
     (case re_search at_pattern text of
        Some at_match \<Rightarrow> parse_time_expression (strip (the (group at_match 1))) now
      | None \<Rightarrow>
     (case re_search relative_pattern text of
        Some relative_match \<Rightarrow>
          (case py_int (the (group relative_match 1)) of
             Inl e \<Rightarrow> Inl e
           | Inr amount \<Rightarrow> calculate_relative_time amount (the (group relative_match 2)) now)
      | None \<Rightarrow> Inr None)))"

text \<open>\<^verbatim>\<open>TaskManager._extract_priority\<close>: the two nested \<^verbatim>\<open>for\<close> loops, each
  returning at the first keyword found in the text.\<close>

fun find_keyword :: "string \<Rightarrow> string list \<Rightarrow> bool" where
  "find_keyword text [] = False"
| "find_keyword text (keyword # keywords) =
     (if contains text keyword then True else find_keyword text keywords)"

fun extract_priority_loop :: "(string \<times> string list) list \<Rightarrow> string \<Rightarrow> string option" where
  "extract_priority_loop [] text = None"
| "extract_priority_loop ((priority, keywords) # rest) text =
     (if find_keyword text keywords then Some priority else extract_priority_loop rest text)"

definition extract_priority :: "string \<Rightarrow> string option" where
  "extract_priority text = extract_priority_loop priority_keywords text"

text \<open>\<^verbatim>\<open>to\s+(.+?)(?:\s+by|\s+at|\s+in|$)\<close> and the same with \<open>about\<close>, both under
  \<^verbatim>\<open>re.IGNORECASE\<close>.\<close>

definition stop_rx :: regex where
  "stop_rx = Alts [Seq (Rep 1 None is_space) (LitI ''by''),
                   Seq (Rep 1 None is_space) (LitI ''at''),
                   Seq (Rep 1 None is_space) (LitI ''in''),
                   Eos]"

definition to_pattern :: regex where
  "to_pattern = Seqs [LitI ''to'', Rep 1 None is_space, Grp 1 (RepLazy 1 not_newline), stop_rx]"

definition about_pattern :: regex where
  "about_pattern =
     Seqs [LitI ''about'', Rep 1 None is_space, Grp 1 (RepLazy 1 not_newline), stop_rx]"

text \<open>\<^verbatim>\<open>TaskManager._extract_description\<close>\<close>

definition extract_description :: "string \<Rightarrow> string" where
  "extract_description text =
     (case re_search to_pattern text of
        Some to_match \<Rightarrow> strip (the (group to_match 1))
      | None \<Rightarrow>
     (case re_search about_pattern text of
        Some about_match \<Rightarrow> strip (the (group about_match 1))
      | None \<Rightarrow> []))"

text \<open>\<^verbatim>\<open>patterns_to_remove\<close> of \<^verbatim>\<open>_clean_title_from_date\<close>, each applied under
  \<^verbatim>\<open>re.IGNORECASE\<close>.\<close>

definition clock_rxI :: regex where
  "clock_rxI =
     Seqs [Rep 1 (Some 2) is_digit,
           Opt (Seq (LitI '':'') (Rep 2 (Some 2) is_digit)),
           Rep 0 None is_space,
           Opt (Alts [LitI ''am'', LitI ''pm'', LitI ''AM'', LitI ''PM''])]"

definition patterns_to_remove :: "regex list" where
  "patterns_to_remove =
     [Seqs [Rep 1 None is_space, LitI ''by'', Rep 1 None is_space, clock_rxI],
      Seqs [Rep 1 None is_space, LitI ''at'', Rep 1 None is_space, clock_rxI],
      Seqs [Rep 1 None is_space, LitI ''in'', Rep 1 None is_space, Rep 1 None is_digit,
            Rep 1 None is_space,
            Alts [Seq (LitI ''minute'') (Opt (LitI ''s'')),
                  Seq (LitI ''hour'') (Opt (LitI ''s'')),
                  Seq (LitI ''day'') (Opt (LitI ''s''))]],
      Seqs [Rep 1 None is_space, LitI ''by'', Rep 1 None is_space, LitI ''tomorrow''],
      Seqs [Rep 1 None is_space, LitI ''by'', Rep 1 None is_space, LitI ''today''],
      Seqs [Rep 1 None is_space, LitI ''at'', Rep 1 None is_space, LitI ''noon''],
      Seqs [Rep 1 None is_space, LitI ''at'', Rep 1 None is_space, LitI ''midnight'']]"

text \<open>\<^verbatim>\<open>TaskManager._clean_title_from_date\<close>; the second argument is not used by
  the program either.\<close>

definition clean_title_from_date :: "string \<Rightarrow> datetime \<Rightarrow> string" where
  "clean_title_from_date original_text due_date =
     strip (foldl (\<lambda>cleaned_text pattern. re_sub_del pattern cleaned_text)
                  original_text patterns_to_remove)"

record parsed_task =
  title :: string
  due_date :: "datetime option"
  priority :: string
  description :: string

text \<open>\<^verbatim>\<open>TaskManager.parse_natural_language\<close>. An exception raised while the due
  date is extracted leaves the function; nothing in it catches one.\<close>

definition parse_natural_language :: "datetime \<Rightarrow> string \<Rightarrow> error + parsed_task" where
  "parse_natural_language now user_input =
     (let input_lower = lower user_input in
      case extract_due_date now input_lower of
        Inl e \<Rightarrow> Inl e
      | Inr due \<Rightarrow>
          Inr \<lparr>title = (case due of None \<Rightarrow> strip user_input
                                  | Some d \<Rightarrow> clean_title_from_date user_input d),
               due_date = due,
               priority = (case extract_priority input_lower of None \<Rightarrow> ''medium''
                                                                | Some p \<Rightarrow> p),
               description = extract_description user_input\<rparr>)"

section \<open>Assistant: intent and task reference\<close>

definition create_keywords :: "string list" where
  "create_keywords = [''remind me'', ''add'', ''create'', ''new task'', ''schedule'', ''set'']"

definition view_keywords :: "string list" where
  "view_keywords = [''show'', ''list'', ''what'', ''tasks'', ''todo'', ''pending'', ''due'']"

definition complete_keywords :: "string list" where
  "complete_keywords = [''done'', ''complete'', ''finished'', ''mark as done'']"

definition delete_keywords :: "string list" where
  "delete_keywords = [''delete'', ''remove'', ''cancel'', ''drop'']"

text \<open>\<^verbatim>\<open>AIAssistant._classify_intent\<close>; \<^verbatim>\<open>any(keyword in user_input for keyword in ks)\<close>
  is \<open>find_keyword user_input ks\<close>.\<close>

definition classify_intent :: "string \<Rightarrow> string" where
  "classify_intent user_input =
     (if find_keyword user_input create_keywords then ''create_task''
      else if find_keyword user_input view_keywords then ''view_tasks''
      else if find_keyword user_input complete_keywords then ''complete_task''
      else if find_keyword user_input delete_keywords then ''delete_task''
      else ''general_chat'')"

text \<open>The first two statements of \<^verbatim>\<open>AIAssistant.process_user_input\<close>: the intent
  that the request is dispatched on.\<close>

definition process_user_input_intent :: "string \<Rightarrow> string" where
  "process_user_input_intent user_input = classify_intent (lower user_input)"




section \<open>Task store\<close>

text \<open>
  The \<^verbatim>\<open>tasks\<close> table of \<^verbatim>\<open>database.py\<close> as the list of its rows. The \<^verbatim>\<open>TEXT\<close>
  columns that may hold \<^verbatim>\<open>NULL\<close> are options.
\<close>

record task_row =
  row_id :: int
  row_title :: string
  row_description :: "string option"
  row_due_date :: "string option"
  row_priority :: "string option"
  row_status :: "string option"
  row_created_at :: "string option"
  row_updated_at :: "string option"

text \<open>The \<^verbatim>\<open>SET\<close> list that \<^verbatim>\<open>update_task\<close> builds: one assignment for each
  argument (primed here) that is not \<^verbatim>\<open>None\<close>, and \<^verbatim>\<open>updated_at\<close> always.\<close>

definition set_columns ::
  "string option \<Rightarrow> string option \<Rightarrow> string option \<Rightarrow> string option \<Rightarrow> string option \<Rightarrow>
   string \<Rightarrow> task_row \<Rightarrow> task_row" where
  "set_columns title' description' due_date' priority' status' now_iso r =
     r\<lparr>row_title := (case title' of None \<Rightarrow> row_title r | Some v \<Rightarrow> v),
       row_description := (case description' of None \<Rightarrow> row_description r | Some v \<Rightarrow> Some v),
       row_due_date := (case due_date' of None \<Rightarrow> row_due_date r | Some v \<Rightarrow> Some v),
       row_priority := (case priority' of None \<Rightarrow> row_priority r | Some v \<Rightarrow> Some v),
       row_status := (case status' of None \<Rightarrow> row_status r | Some v \<Rightarrow> Some v),
       row_updated_at := Some now_iso\<rparr>"

text \<open>\<^verbatim>\<open>TaskDatabase.update_task\<close>: \<^verbatim>\<open>UPDATE tasks SET ... WHERE id = ?\<close>, then
  \<^verbatim>\<open>cursor.rowcount > 0\<close>. \<open>now_iso\<close> is the text of
  \<^verbatim>\<open>datetime.now().isoformat()\<close> at the call.\<close>

definition update_task ::
  "task_row list \<Rightarrow> string \<Rightarrow> int \<Rightarrow> string option \<Rightarrow> string option \<Rightarrow> string option \<Rightarrow>
   string option \<Rightarrow> string option \<Rightarrow> task_row list \<times> bool" where
  "update_task db now_iso task_id title' description' due_date' priority' status' =
     (map (\<lambda>r. if row_id r = task_id
                then set_columns title' description' due_date' priority' status' now_iso r
                else r) db,
      0 < length (filter (\<lambda>r. row_id r = task_id) db))"

text \<open>\<^verbatim>\<open>TaskManager.mark_task_complete\<close>\<close>

definition mark_task_complete :: "task_row list \<Rightarrow> string \<Rightarrow> int \<Rightarrow> task_row list \<times> bool" where
  "mark_task_complete db now_iso task_id =
     update_task db now_iso task_id None None None None (Some ''completed'')"

section \<open>Notions used in the statements\<close>

text \<open>The first way, if any, in which a pattern matches at the start of a string, from
  given capture groups: what the backtracking matcher settles on when what follows the
  pattern accepts it.\<close>

definition first_match :: "regex \<Rightarrow> groups \<Rightarrow> string \<Rightarrow> (groups \<times> string) option" where
  "first_match r c s = (case rmatch r c s of [] \<Rightarrow> None | m # _ \<Rightarrow> Some m)"

text \<open>The text of a clock time \<^verbatim>\<open>H[:MM][am|pm]\<close>: the digits of the hour, the digits
  of the minute if there is one, white space, and the period (empty when there is
  none).\<close>

definition clock_text :: "string \<Rightarrow> string option \<Rightarrow> string \<Rightarrow> string \<Rightarrow> string" where
  "clock_text hh mm ws period =
     hh @ (case mm of None \<Rightarrow> [] | Some m \<Rightarrow> CHR '':'' # m) @ ws @ period"

text \<open>The hour on the 24-hour clock that lines 151 to 154 of \<^verbatim>\<open>task_manager.py\<close>
  compute.\<close>

definition hour24 :: "int \<Rightarrow> string \<Rightarrow> int" where
  "hour24 h period =
     (if period = ''pm'' \<and> h \<noteq> 12 then h + 12
      else if period = ''am'' \<and> h = 12 then 0
      else h)"

section \<open>Sample values\<close>

text \<open>2024-01-01T10:00:00 and 2024-01-01T20:30:15.\<close>

definition sample_now :: datetime where
  "sample_now = \<lparr>day_ord = 738886, hour = 10, minute = 0, second = 0, microsecond = 0\<rparr>"

definition sample_evening :: datetime where
  "sample_evening = \<lparr>day_ord = 738886, hour = 20, minute = 30, second = 15, microsecond = 0\<rparr>"

definition sample_rows :: "task_row list" where
  "sample_rows =
     [\<lparr>row_id = 1, row_title = ''call mom'', row_description = Some [], row_due_date = None,
       row_priority = Some ''medium'', row_status = Some ''pending'',
       row_created_at = Some ''2024-01-01 09:00:00'', row_updated_at = Some ''2024-01-01 09:00:00''\<rparr>,
      \<lparr>row_id = 2, row_title = ''buy milk'', row_description = Some [], row_due_date = None,
       row_priority = Some ''low'', row_status = Some ''pending'',
       row_created_at = Some ''2024-01-01 09:05:00'', row_updated_at = Some ''2024-01-01 09:05:00''\<rparr>]"

section \<open>Strings and regular expressions: basic facts\<close>

lemma startswith_iff: "startswith s k \<longleftrightarrow> (\<exists>post. s = k @ post)"
  by (induction s k rule: startswith.induct) auto

lemma contains_iff: "contains s k \<longleftrightarrow> (\<exists>pre post. s = pre @ k @ post)"
proof (induction s)
  case Nil
  show ?case by (auto simp: startswith_iff)
next
  case (Cons x xs)
  show ?case
  proof
    assume "contains (x # xs) k"
    then consider "startswith (x # xs) k" | "contains xs k" by auto
    then show "\<exists>pre post. x # xs = pre @ k @ post"
    proof cases
      case 1
      then obtain post where "x # xs = k @ post" by (auto simp: startswith_iff)
      then have "x # xs = [] @ k @ post" by simp
      then show ?thesis by blast
    next
      case 2
      then obtain pre post where "xs = pre @ k @ post" using Cons.IH by blast
      then have "x # xs = (x # pre) @ k @ post" by simp
      then show ?thesis by blast
    qed
  next
    assume "\<exists>pre post. x # xs = pre @ k @ post"
    then obtain pre post where e: "x # xs = pre @ k @ post" by blast
    show "contains (x # xs) k"
    proof (cases pre)
      case Nil
      with e have "startswith (x # xs) k" by (auto simp: startswith_iff)
      then show ?thesis by simp
    next
      case (Cons y ys)
      with e have "xs = ys @ k @ post" by simp
      then have "contains xs k" using Cons.IH by blast
      then show ?thesis by simp
    qed
  qed
qed

lemma find_keyword_iff: "find_keyword text ks \<longleftrightarrow> (\<exists>k \<in> set ks. contains text k)"
  by (induction ks) auto




section \<open>Priority extraction\<close>

lemma extract_priority_chain:
  "extract_priority text =
     (if \<exists>k \<in> set [''urgent'', ''asap'', ''immediately'', ''critical'', ''important'', ''high''].
           \<exists>pre post. text = pre @ k @ post then Some ''high''
      else if \<exists>k \<in> set [''normal'', ''regular'', ''medium''].
           \<exists>pre post. text = pre @ k @ post then Some ''medium''
      else if \<exists>k \<in> set [''low'', ''later'', ''whenever'', ''optional''].
           \<exists>pre post. text = pre @ k @ post then Some ''low''
      else None)"
  unfolding extract_priority_def priority_keywords_def extract_priority_loop.simps
    find_keyword_iff contains_iff
  by simp

lemma parse_priority:
  "parse_natural_language now u = Inr p \<Longrightarrow>
     priority p = (case extract_priority (lower u) of None \<Rightarrow> ''medium'' | Some q \<Rightarrow> q)"
  by (auto simp: parse_natural_language_def Let_def split: sum.splits)

lemma parse_upper_case_keyword:
  "map_sum id priority (parse_natural_language now ''URGENT: Buy Milk'') = Inr ''high''"
  by code_simp

lemma extract_priority_upper_case: "extract_priority ''URGENT: Buy Milk'' = None"
  by code_simp

text \<open>
  C8. Priority extraction tests the keyword lists of \<open>high\<close>, then \<open>medium\<close>, then
  \<open>low\<close>, and returns the priority of the first list one of whose keywords occurs in the
  text as a substring; with no keyword in the text it returns nothing, and the parser then
  keeps its default \<open>medium\<close>. The parser hands it the lower-cased utterance: the three
  sample texts give \<open>high\<close>, \<open>low\<close> and nothing, and "URGENT: Buy Milk", in which
  the extractor alone finds no keyword, is parsed with priority \<open>high\<close>.
\<close>

theorem extract_priority_order:
  "extract_priority text =
     (if \<exists>k \<in> set [''urgent'', ''asap'', ''immediately'', ''critical'', ''important'', ''high''].
           \<exists>pre post. text = pre @ k @ post then Some ''high''
      else if \<exists>k \<in> set [''normal'', ''regular'', ''medium''].
           \<exists>pre post. text = pre @ k @ post then Some ''medium''
      else if \<exists>k \<in> set [''low'', ''later'', ''whenever'', ''optional''].
           \<exists>pre post. text = pre @ k @ post then Some ''low''
      else None)
   \<and> (\<forall>now p. parse_natural_language now u = Inr p \<longrightarrow>
         priority p = (case extract_priority (lower u) of None \<Rightarrow> ''medium'' | Some q \<Rightarrow> q))
   \<and> extract_priority ''this is urgent'' = Some ''high''
   \<and> extract_priority ''whenever you can'' = Some ''low''
   \<and> extract_priority ''buy milk'' = None
   \<and> extract_priority ''URGENT: Buy Milk'' = None
   \<and> lower ''URGENT: Buy Milk'' = ''urgent: buy milk''
   \<and> (\<forall>now. map_sum id priority (parse_natural_language now ''URGENT: Buy Milk'') = Inr ''high'')"
proof -
  have a: "extract_priority ''this is urgent'' = Some ''high''" by code_simp
  have b: "extract_priority ''whenever you can'' = Some ''low''" by code_simp
  have c: "extract_priority ''buy milk'' = None" by code_simp
  have d: "lower ''URGENT: Buy Milk'' = ''urgent: buy milk''" by code_simp
  show ?thesis
    using extract_priority_chain parse_priority a b c d
      extract_priority_upper_case parse_upper_case_keyword
    by blast
qed

theorem extract_priority_order_witness:
  "parse_natural_language sample_now ''Call Bob ASAP''
     = Inr \<lparr>title = ''Call Bob ASAP'', due_date = None, priority = ''high'', description = []\<rparr>
   \<and> lower ''Call Bob ASAP'' = ''call bob asap''
   \<and> extract_priority (lower ''Call Bob ASAP'') = Some ''high''
   \<and> (case extract_priority (lower ''Call Bob ASAP'') of None \<Rightarrow> ''medium'' | Some q \<Rightarrow> q) = ''high''
   \<and> parse_natural_language sample_now ''Buy milk''
     = Inr \<lparr>title = ''Buy milk'', due_date = None, priority = ''medium'', description = []\<rparr>
   \<and> (case extract_priority (lower ''Buy milk'') of None \<Rightarrow> ''medium'' | Some q \<Rightarrow> q) = ''medium''"
proof -
  note T = extract_priority_order [of "lower ''Call Bob ASAP''" "''Call Bob ASAP''"]
  note T' = extract_priority_order [of "''buy milk''" "''Buy milk''"]
  have p: "parse_natural_language sample_now ''Call Bob ASAP''
     = Inr \<lparr>title = ''Call Bob ASAP'', due_date = None, priority = ''high'', description = []\<rparr>"
    by code_simp
  have p': "parse_natural_language sample_now ''Buy milk''
     = Inr \<lparr>title = ''Buy milk'', due_date = None, priority = ''medium'', description = []\<rparr>"
    by code_simp
  have l: "lower ''Call Bob ASAP'' = ''call bob asap''" by code_simp
  have e: "lower ''Call Bob ASAP'' = ''call bob '' @ ''asap'' @ []" unfolding l by simp
  have h: "\<exists>k \<in> set [''urgent'', ''asap'', ''immediately'', ''critical'', ''important'', ''high''].
           \<exists>pre post. lower ''Call Bob ASAP'' = pre @ k @ post"
    using e by (metis list.set_intros)
  from T have 1: "extract_priority (lower ''Call Bob ASAP'') = Some ''high''"
    unfolding if_P [OF h] by (rule conjunct1)
  from T have "\<forall>now p. parse_natural_language now ''Call Bob ASAP'' = Inr p \<longrightarrow>
      priority p = (case extract_priority (lower ''Call Bob ASAP'') of None \<Rightarrow> ''medium'' | Some q \<Rightarrow> q)"
    by blast
  from this [rule_format, OF p]
  have 2: "(case extract_priority (lower ''Call Bob ASAP'') of None \<Rightarrow> ''medium'' | Some q \<Rightarrow> q) = ''high''"
    by simp
  from T' have "\<forall>now p. parse_natural_language now ''Buy milk'' = Inr p \<longrightarrow>
      priority p = (case extract_priority (lower ''Buy milk'') of None \<Rightarrow> ''medium'' | Some q \<Rightarrow> q)"
    by blast
  from this [rule_format, OF p']
  have 3: "(case extract_priority (lower ''Buy milk'') of None \<Rightarrow> ''medium'' | Some q \<Rightarrow> q) = ''medium''"
    by simp
  from p p' l 1 2 3 show ?thesis by blast
qed

section \<open>Intent classification\<close>

lemma classify_intent_chain:
  "classify_intent text =
     (if \<exists>k \<in> set [''remind me'', ''add'', ''create'', ''new task'', ''schedule'', ''set''].
           \<exists>pre post. text = pre @ k @ post then ''create_task''
      else if \<exists>k \<in> set [''show'', ''list'', ''what'', ''tasks'', ''todo'', ''pending'', ''due''].
           \<exists>pre post. text = pre @ k @ post then ''view_tasks''
      else if \<exists>k \<in> set [''done'', ''complete'', ''finished'', ''mark as done''].
           \<exists>pre post. text = pre @ k @ post then ''complete_task''
      else if \<exists>k \<in> set [''delete'', ''remove'', ''cancel'', ''drop''].
           \<exists>pre post. text = pre @ k @ post then ''delete_task''
      else ''general_chat'')"
  unfolding classify_intent_def create_keywords_def view_keywords_def complete_keywords_def
    delete_keywords_def find_keyword_iff contains_iff
  by simp

lemma classify_intent_total:
  "classify_intent text \<in>
     set [''create_task'', ''view_tasks'', ''complete_task'', ''delete_task'', ''general_chat'']"
  unfolding classify_intent_def by simp

text \<open>
  C5. The intent of an utterance is decided on its lower-cased text by testing the create,
  view, complete and delete keyword lists in that order: the first list with a keyword
  occurring as a substring gives the intent, and \<open>general_chat\<close> is the intent when none
  has one. Every utterance gets exactly one of the five intents, and
  "show me how to add a task", which has a view cue and a create cue, is a
  \<open>create_task\<close>.
\<close>

theorem classify_intent_order:
  "process_user_input_intent u =
     (if \<exists>k \<in> set [''remind me'', ''add'', ''create'', ''new task'', ''schedule'', ''set''].
           \<exists>pre post. lower u = pre @ k @ post then ''create_task''
      else if \<exists>k \<in> set [''show'', ''list'', ''what'', ''tasks'', ''todo'', ''pending'', ''due''].
           \<exists>pre post. lower u = pre @ k @ post then ''view_tasks''
      else if \<exists>k \<in> set [''done'', ''complete'', ''finished'', ''mark as done''].
           \<exists>pre post. lower u = pre @ k @ post then ''complete_task''
      else if \<exists>k \<in> set [''delete'', ''remove'', ''cancel'', ''drop''].
           \<exists>pre post. lower u = pre @ k @ post then ''delete_task''
      else ''general_chat'')
   \<and> process_user_input_intent u \<in>
       set [''create_task'', ''view_tasks'', ''complete_task'', ''delete_task'', ''general_chat'']
   \<and> process_user_input_intent ''show me how to add a task'' = ''create_task''"
proof -
  have a: "process_user_input_intent ''show me how to add a task'' = ''create_task''"
    by code_simp
  show ?thesis
    unfolding process_user_input_intent_def
    using classify_intent_chain [of "lower u"] classify_intent_total [of "lower u"]
      a [unfolded process_user_input_intent_def]
    by blast
qed

theorem classify_intent_order_witness:
  "process_user_input_intent ''Show me how to ADD a task'' = ''create_task''"
proof -
  have l: "lower ''Show me how to ADD a task'' = ''show me how to '' @ ''add'' @ '' a task''"
    by code_simp
  have h: "\<exists>k \<in> set [''remind me'', ''add'', ''create'', ''new task'', ''schedule'', ''set''].
           \<exists>pre post. lower ''Show me how to ADD a task'' = pre @ k @ post"
    using l by (metis list.set_intros)
  from classify_intent_order [of "''Show me how to ADD a task''"]
  show ?thesis unfolding if_P [OF h] by (rule conjunct1)
qed

section \<open>Marking a task complete\<close>

lemma update_task_length: "length (fst (update_task db n t a b c d e)) = length db"
  by (simp add: update_task_def)

text \<open>
  C10. Marking a task complete keeps the number of rows, leaves every row with another id
  as it is, and in a row with the given id sets \<open>status\<close> to \<open>completed\<close> and
  \<open>updated_at\<close> to the time of the call while the id, title, description, due date,
  priority and creation time stay the same. It returns true exactly when some row has the
  given id.
\<close>

theorem mark_task_complete_frame:
  "length (fst (mark_task_complete db now_iso task_id)) = length db
   \<and> (\<forall>i < length db.
        let r = db ! i; r' = fst (mark_task_complete db now_iso task_id) ! i
        in (row_id r \<noteq> task_id \<longrightarrow> r' = r)
         \<and> (row_id r = task_id \<longrightarrow>
              row_status r' = Some ''completed'' \<and> row_updated_at r' = Some now_iso
            \<and> row_id r' = row_id r \<and> row_title r' = row_title r
            \<and> row_description r' = row_description r \<and> row_due_date r' = row_due_date r
            \<and> row_priority r' = row_priority r \<and> row_created_at r' = row_created_at r))
   \<and> snd (mark_task_complete db now_iso task_id) = (\<exists>r \<in> set db. row_id r = task_id)"
proof -
  have 1: "length (fst (mark_task_complete db now_iso task_id)) = length db"
    by (simp add: mark_task_complete_def update_task_def)
  have 2: "snd (mark_task_complete db now_iso task_id) = (\<exists>r \<in> set db. row_id r = task_id)"
    by (auto simp: mark_task_complete_def update_task_def filter_empty_conv)
  have 3: "\<forall>i < length db.
        let r = db ! i; r' = fst (mark_task_complete db now_iso task_id) ! i
        in (row_id r \<noteq> task_id \<longrightarrow> r' = r)
         \<and> (row_id r = task_id \<longrightarrow>
              row_status r' = Some ''completed'' \<and> row_updated_at r' = Some now_iso
            \<and> row_id r' = row_id r \<and> row_title r' = row_title r
            \<and> row_description r' = row_description r \<and> row_due_date r' = row_due_date r
            \<and> row_priority r' = row_priority r \<and> row_created_at r' = row_created_at r)"
    by (simp add: mark_task_complete_def update_task_def set_columns_def Let_def)
  from 1 2 3 show ?thesis by blast
qed

theorem mark_task_complete_frame_witness:
  "mark_task_complete sample_rows ''2024-01-02T08:00:00'' 2 =
     ([sample_rows ! 0,
       (sample_rows ! 1)\<lparr>row_status := Some ''completed'',
                          row_updated_at := Some ''2024-01-02T08:00:00''\<rparr>], True)
   \<and> \<not> snd (mark_task_complete sample_rows ''2024-01-02T08:00:00'' 7)"
proof -
  note T = mark_task_complete_frame [of sample_rows "''2024-01-02T08:00:00''"]
  have ids: "row_id (sample_rows ! 0) = 1" "row_id (sample_rows ! 1) = 2"
    "length sample_rows = 2" "set sample_rows = {sample_rows ! 0, sample_rows ! 1}"
    by (auto simp: sample_rows_def)
  obtain db' ok where m: "mark_task_complete sample_rows ''2024-01-02T08:00:00'' 2 = (db', ok)"
    by (cases "mark_task_complete sample_rows ''2024-01-02T08:00:00'' 2")
  from T [of 2] ids m have len: "length db' = 2" and ok: "ok" by auto
  from T [of 2] have all: "\<forall>i < length sample_rows.
        let r = sample_rows ! i; r' = fst (mark_task_complete sample_rows ''2024-01-02T08:00:00'' 2) ! i
        in (row_id r \<noteq> 2 \<longrightarrow> r' = r)
         \<and> (row_id r = 2 \<longrightarrow>
              row_status r' = Some ''completed'' \<and> row_updated_at r' = Some ''2024-01-02T08:00:00''
            \<and> row_id r' = row_id r \<and> row_title r' = row_title r
            \<and> row_description r' = row_description r \<and> row_due_date r' = row_due_date r
            \<and> row_priority r' = row_priority r \<and> row_created_at r' = row_created_at r)"
    by blast
  from all [rule_format, of 0] ids m have r0: "db' ! 0 = sample_rows ! 0" by (simp add: Let_def)
  from all [rule_format, of 1] ids m
  have r1: "db' ! 1 = (sample_rows ! 1)\<lparr>row_status := Some ''completed'',
                          row_updated_at := Some ''2024-01-02T08:00:00''\<rparr>"
    by (simp add: Let_def)
  from len r0 r1 have "db' = [sample_rows ! 0, (sample_rows ! 1)\<lparr>row_status := Some ''completed'',
                          row_updated_at := Some ''2024-01-02T08:00:00''\<rparr>]"
    by (auto simp: list_eq_iff_nth_eq less_Suc_eq numeral_2_eq_2)
  moreover from T [of 7] ids have "\<not> snd (mark_task_complete sample_rows ''2024-01-02T08:00:00'' 7)"
    by auto
  ultimately show ?thesis using m ok by simp
qed

section \<open>Matching a clock time\<close>

lemma first_match_re_match: "re_match r s = first_match r (\<lambda>_. None) s"
  by (simp add: re_match_def first_match_def)

lemma first_Seq:
  assumes "first_match a c s = Some m1" and "first_match b (fst m1) (snd m1) = Some m2"
  shows "first_match (Seq a b) c s = Some m2"
proof -
  from assms(1) obtain r1 where 1: "rmatch a c s = m1 # r1"
    by (auto simp: first_match_def split: list.splits)
  from assms(2) obtain r2 where 2: "rmatch b (fst m1) (snd m1) = m2 # r2"
    by (auto simp: first_match_def split: list.splits)
  show ?thesis by (simp add: first_match_def 1 2)
qed

lemma first_Opt_Some:
  "first_match a c s = Some m \<Longrightarrow> first_match (Opt a) c s = Some m"
  by (auto simp: first_match_def split: list.splits)

lemma first_Opt_None:
  "rmatch a c s = [] \<Longrightarrow> first_match (Opt a) c s = Some (c, s)"
  by (simp add: first_match_def)

lemma first_Alt_left:
  "first_match a c s = Some m \<Longrightarrow> first_match (Alt a b) c s = Some m"
  by (auto simp: first_match_def split: list.splits)

lemma first_Alt_right:
  "rmatch a c s = [] \<Longrightarrow> first_match (Alt a b) c s = first_match b c s"
  by (simp add: first_match_def)

lemma first_Grp:
  "first_match a c s = Some m \<Longrightarrow>
     first_match (Grp i a) c s = Some ((fst m)(i := Some (take (length s - length (snd m)) s)), snd m)"
  by (auto simp: first_match_def split: list.splits)

lemma first_Rep:
  assumes "takeWhile p s = pre" and "lo \<le> k"
    and "k = (case hi of None \<Rightarrow> length pre | Some h \<Rightarrow> min h (length pre))"
  shows "first_match (Rep lo hi p) c s = Some (c, drop k s)"
proof -
  from assms(2) have "rev [lo ..< Suc k] = k # rev [lo ..< k]" by simp
  then show ?thesis using assms(1,3) by (simp add: first_match_def Let_def)
qed

lemma first_Lit: "first_match (Lit k) c (k @ s) = Some (c, s)"
  by (induction k) (simp_all add: first_match_def)

lemma rmatch_Lit_Nil: "rmatch (Lit (k # ks)) c [] = []"
  by simp

lemma rmatch_Lit_neq: "x \<noteq> k \<Longrightarrow> rmatch (Lit (k # ks)) c (x # xs) = []"
  by simp



lemma takeWhile_stop: "s = [] \<or> \<not> p (hd s) \<Longrightarrow> takeWhile p s = []"
  by (cases s) auto

lemma takeWhile_all_append:
  "list_all p xs \<Longrightarrow> takeWhile p (xs @ ys) = xs @ takeWhile p ys"
  by (simp add: list_all_iff takeWhile_append2)

lemma period_head:
  assumes "period \<in> {[], ''am'', ''pm''}"
  shows "period = [] \<or> (\<not> is_digit (hd period) \<and> \<not> is_space (hd period) \<and> hd period \<noteq> CHR '':'')"
  using assms by (auto simp: is_digit_def is_space_def)

lemma ws_period_head:
  assumes "list_all is_space ws" and "period \<in> {[], ''am'', ''pm''}"
  shows "ws @ period = [] \<or> (\<not> is_digit (hd (ws @ period)) \<and> hd (ws @ period) \<noteq> CHR '':'')"
proof (cases ws)
  case Nil
  with period_head [OF assms(2)] show ?thesis by auto
next
  case (Cons x xs)
  with assms(1) have "is_space x" by simp
  then have "\<not> is_digit x \<and> x \<noteq> CHR '':''" by (auto simp: is_space_def is_digit_def)
  with Cons show ?thesis by simp
qed

text \<open>The hour group.\<close>

lemma first_hour:
  assumes "hh \<noteq> []" "length hh \<le> 2" "list_all is_digit hh"
    and "length hh = 2 \<or> rest = [] \<or> \<not> is_digit (hd rest)"
  shows "first_match (Grp 1 (Rep 1 (Some 2) is_digit)) c (hh @ rest) = Some (c(1 := Some hh), rest)"
proof -
  let ?pre = "hh @ takeWhile is_digit rest"
  have tw: "takeWhile is_digit (hh @ rest) = ?pre"
    using assms(3) by (rule takeWhile_all_append)
  have k: "length hh = (case Some 2 of None \<Rightarrow> length ?pre | Some h \<Rightarrow> min h (length ?pre))"
  proof (cases "length hh = 2")
    case True
    then show ?thesis by simp
  next
    case False
    with assms(4) have "takeWhile is_digit rest = []" by (intro takeWhile_stop) blast
    moreover have "0 < length hh" using assms(1) by simp
    with False assms(2) have "length hh = 1" by linarith
    ultimately show ?thesis by simp
  qed
  have lo: "1 \<le> length hh" using assms(1) by (cases hh) auto
  have "first_match (Rep 1 (Some 2) is_digit) c (hh @ rest) = Some (c, drop (length hh) (hh @ rest))"
    using tw lo k by (rule first_Rep)
  from first_Grp [OF this, of 1] show ?thesis by simp
qed

text \<open>The optional minute group.\<close>

lemma first_minute_Some:
  assumes "length m = 2" "list_all is_digit m"
  shows "first_match (Opt (Seq (Lit '':'') (Grp 2 (Rep 2 (Some 2) is_digit)))) c
           (CHR '':'' # m @ rest) = Some (c(2 := Some m), rest)"
proof -
  let ?pre = "m @ takeWhile is_digit rest"
  have tw: "takeWhile is_digit (m @ rest) = ?pre"
    using assms(2) by (rule takeWhile_all_append)
  have k: "length m = (case Some 2 of None \<Rightarrow> length ?pre | Some h \<Rightarrow> min h (length ?pre))"
    using assms(1) by simp
  have lo: "2 \<le> length m" using assms(1) by simp
  have "first_match (Rep 2 (Some 2) is_digit) c (m @ rest) = Some (c, drop (length m) (m @ rest))"
    using tw lo k by (rule first_Rep)
  from first_Grp [OF this, of 2]
  have g: "first_match (Grp 2 (Rep 2 (Some 2) is_digit)) c (m @ rest) = Some (c(2 := Some m), rest)"
    by simp
  have l: "first_match (Lit '':'') c (CHR '':'' # m @ rest) = Some (c, m @ rest)"
    using first_Lit [of "'':''" c "m @ rest"] by simp
  have "first_match (Seq (Lit '':'') (Grp 2 (Rep 2 (Some 2) is_digit))) c (CHR '':'' # m @ rest)
      = Some (c(2 := Some m), rest)"
    using l by (rule first_Seq) (simp add: g)
  then show ?thesis by (rule first_Opt_Some)
qed

lemma first_minute_None:
  assumes "rest = [] \<or> hd rest \<noteq> CHR '':''"
  shows "first_match (Opt (Seq (Lit '':'') (Grp 2 (Rep 2 (Some 2) is_digit)))) c rest = Some (c, rest)"
proof -
  from assms have "rmatch (Lit '':'') c rest = []" by (cases rest) auto
  then have "rmatch (Seq (Lit '':'') (Grp 2 (Rep 2 (Some 2) is_digit))) c rest = []"
    by (simp del: Lit.simps)
  then show ?thesis by (rule first_Opt_None)
qed

text \<open>White space, then the optional period.\<close>

lemma first_spaces:
  assumes "list_all is_space ws" and "period = [] \<or> \<not> is_space (hd period)"
  shows "first_match (Rep 0 None is_space) c (ws @ period) = Some (c, period)"
proof -
  from assms(2) have "takeWhile is_space period = []" by (rule takeWhile_stop)
  with assms(1) have tw: "takeWhile is_space (ws @ period) = ws"
    by (simp add: takeWhile_all_append)
  have "first_match (Rep 0 None is_space) c (ws @ period) = Some (c, drop (length ws) (ws @ period))"
    using tw by (rule first_Rep) simp_all
  then show ?thesis by simp
qed

lemma first_period:
  assumes "period \<in> {[], ''am'', ''pm''}"
  shows "first_match (Opt (Grp 3 (Alt (Lit ''am'') (Lit ''pm'')))) c period
     = Some (if period = [] then c else c(3 := Some period), [])"
  using assms by (auto simp: first_match_def)

lemma tod_split:
  fixes h m s :: int
  assumes "0 \<le> m" "m < 60" "0 \<le> s" "s < 60"
  shows "(h * 3600 + m * 60 + s) div 3600 = h"
    and "((h * 3600 + m * 60 + s) mod 3600) div 60 = m"
    and "(h * 3600 + m * 60 + s) mod 60 = s"
proof -
  let ?x = "m * 60 + s"
  from assms have x: "0 \<le> ?x" "?x < 3600" by auto
  have e: "h * 3600 + m * 60 + s = ?x + h * 3600" by simp
  from x have "?x div 3600 = 0" by simp
  then show "(h * 3600 + m * 60 + s) div 3600 = h" unfolding e by simp
  from x have md: "(h * 3600 + m * 60 + s) mod 3600 = ?x" unfolding e by simp
  have "?x div 60 = m" using assms by simp
  then show "((h * 3600 + m * 60 + s) mod 3600) div 60 = m" unfolding md .
  have e2: "h * 3600 + m * 60 + s = s + (h * 60 + m) * 60" by (simp add: algebra_simps)
  have "(s + (h * 60 + m) * 60) mod 60 = s mod 60" by (rule mod_mult_self1)
  also have "\<dots> = s" using assms by simp
  finally show "(h * 3600 + m * 60 + s) mod 60 = s" unfolding e2 .
qed

lemma add_days_one:
  assumes "valid_datetime d" and "day_ord d < MAXORD"
  shows "add_days d 1 = Inr (d\<lparr>day_ord := day_ord d + 1\<rparr>)"
proof -
  let ?t = "hour d * 3600 + minute d * 60 + second d"
  from assms(1) have f: "0 \<le> hour d" "hour d < 24" "0 \<le> minute d" "minute d < 60"
    "0 \<le> second d" "second d < 60" and o: "1 \<le> day_ord d"
    unfolding valid_datetime_def by blast+
  from f have r: "0 \<le> ?t" "?t < 86400" by linarith+
  have "(?t + 86400) div 86400 = ?t div 86400 + 1" by simp
  with r have dv: "(?t + 86400) div 86400 = 1" by simp
  have "(?t + 86400) mod 86400 = ?t mod 86400" by simp
  with r have md: "(?t + 86400) mod 86400 = ?t" by simp
  note sp = tod_split [OF f(3) f(4) f(5) f(6), of "hour d"]
  have "add_seconds d 86400 = Inr (d\<lparr>day_ord := day_ord d + 1, hour := hour d,
      minute := minute d, second := second d\<rparr>)"
    unfolding add_seconds_def Let_def dv md sp using o assms(2) by simp
  then show ?thesis by (simp add: add_days_def)
qed


lemma time_pattern_clock:
  assumes hh: "hh \<noteq> []" "length hh \<le> 2" "list_all is_digit hh"
    and mm: "case mm of None \<Rightarrow> True | Some m \<Rightarrow> length m = 2 \<and> list_all is_digit m"
    and ws: "list_all is_space ws"
    and per: "period \<in> {[], ''am'', ''pm''}"
  shows "\<exists>m. re_match time_pattern (clock_text hh mm ws period) = Some m
           \<and> group m 1 = Some hh \<and> group m 2 = mm
           \<and> group m 3 = (if period = [] then None else Some period)"
proof -
  let ?M = "case mm of None \<Rightarrow> [] | Some m \<Rightarrow> CHR '':'' # m"
  let ?c0 = "(\<lambda>_. None) :: groups"
  let ?c1 = "?c0(1 := Some hh)"
  let ?c2 = "case mm of None \<Rightarrow> ?c1 | Some m \<Rightarrow> ?c1(2 := Some m)"
  let ?c3 = "if period = [] then ?c2 else ?c2(3 := Some period)"
  let ?B = "Opt (Seq (Lit '':'') (Grp 2 (Rep 2 (Some 2) is_digit)))"
  let ?C = "Rep 0 None is_space"
  let ?D = "Opt (Grp 3 (Alt (Lit ''am'') (Lit ''pm'')))"
  note wp = ws_period_head [OF ws per]
  have nd: "?M @ ws @ period = [] \<or> \<not> is_digit (hd (?M @ ws @ period))"
  proof (cases mm)
    case None
    with wp show ?thesis by auto
  next
    case (Some m)
    then show ?thesis by (simp add: is_digit_def)
  qed
  have a: "first_match (Grp 1 (Rep 1 (Some 2) is_digit)) ?c0 (hh @ ?M @ ws @ period)
      = Some (?c1, ?M @ ws @ period)"
    using hh nd by (intro first_hour) auto
  have b: "first_match ?B ?c1 (?M @ ws @ period) = Some (?c2, ws @ period)"
  proof (cases mm)
    case None
    from wp have "first_match ?B ?c1 (ws @ period) = Some (?c1, ws @ period)"
      by (intro first_minute_None) auto
    with None show ?thesis by simp
  next
    case (Some m)
    with mm have "length m = 2" "list_all is_digit m" by auto
    from first_minute_Some [OF this, of ?c1 "ws @ period"] Some show ?thesis by simp
  qed
  have c: "first_match ?C ?c2 (ws @ period) = Some (?c2, period)"
    using ws period_head [OF per] by (intro first_spaces) auto
  have d: "first_match ?D ?c2 period = Some (?c3, [])"
    using first_period [OF per, of ?c2] .
  have cd: "first_match (Seq ?C ?D) ?c2 (ws @ period) = Some (?c3, [])"
    using c by (rule first_Seq) (simp only: fst_conv snd_conv d)
  have bcd: "first_match (Seq ?B (Seq ?C ?D)) ?c1 (?M @ ws @ period) = Some (?c3, [])"
    using b by (rule first_Seq) (simp only: fst_conv snd_conv cd)
  have abcd: "first_match (Seq (Grp 1 (Rep 1 (Some 2) is_digit)) (Seq ?B (Seq ?C ?D))) ?c0
      (hh @ ?M @ ws @ period) = Some (?c3, [])"
    using a by (rule first_Seq) (simp only: fst_conv snd_conv bcd)
  have tp: "time_pattern = Seq (Grp 1 (Rep 1 (Some 2) is_digit)) (Seq ?B (Seq ?C ?D))"
    by (simp add: time_pattern_def)
  have r: "re_match time_pattern (clock_text hh mm ws period) = Some (?c3, [])"
    unfolding first_match_re_match tp clock_text_def using abcd .
  have g1: "?c3 1 = Some hh" by (simp split: option.splits)
  have g2: "?c3 2 = mm" by (simp split: option.splits)
  have g3: "?c3 3 = (if period = [] then None else Some period)" by (simp split: option.splits)
  from r g1 g2 g3 show ?thesis by (simp add: group_def)
qed

lemma lower_char_digit: "is_digit c \<Longrightarrow> lower_char c = c"
  by (auto simp: is_digit_def lower_char_def)

lemma lower_char_space: "is_space c \<Longrightarrow> lower_char c = c"
  by (auto simp: is_space_def lower_char_def)

lemma lower_char_colon: "lower_char CHR '':'' = CHR '':''"
  by (simp add: lower_char_def)

lemma lower_all: "list_all (\<lambda>c. lower_char c = c) s \<Longrightarrow> lower s = s"
  by (induction s) (auto simp: lower_def)

lemma lower_clock_text:
  assumes "list_all is_digit hh"
    and "case mm of None \<Rightarrow> True | Some m \<Rightarrow> length m = 2 \<and> list_all is_digit m"
    and "list_all is_space ws"
    and "period \<in> {[], ''am'', ''pm''}"
  shows "lower (clock_text hh mm ws period) = clock_text hh mm ws period"
proof -
  have 1: "lower hh = hh"
    using assms(1) by (intro lower_all) (auto simp: list_all_iff lower_char_digit)
  have 2: "lower (case mm of None \<Rightarrow> [] | Some m \<Rightarrow> CHR '':'' # m)
      = (case mm of None \<Rightarrow> [] | Some m \<Rightarrow> CHR '':'' # m)"
    using assms(2)
    by (intro lower_all) (auto simp: list_all_iff lower_char_digit lower_char_colon split: option.splits)
  have 3: "lower ws = ws"
    using assms(3) by (intro lower_all) (auto simp: list_all_iff lower_char_space)
  have 4: "lower period = period"
    using assms(4) by (intro lower_all) (auto simp: lower_char_def)
  have "lower (clock_text hh mm ws period) =
     lower hh @ lower (case mm of None \<Rightarrow> [] | Some m \<Rightarrow> CHR '':'' # m) @ lower ws @ lower period"
    by (simp add: clock_text_def lower_def)
  then show ?thesis unfolding 1 2 3 4 by (simp add: clock_text_def)
qed

lemma clock_text_not_keyword:
  assumes "hh \<noteq> []" "list_all is_digit hh"
  shows "clock_text hh mm ws period \<notin> {''tomorrow'', ''today'', ''noon'', ''midnight''}"
proof -
  from assms obtain x xs where "hh = x # xs" "is_digit x" by (cases hh) auto
  then show ?thesis by (auto simp: clock_text_def is_digit_def)
qed

lemma digit_val_nonneg: "is_digit c \<Longrightarrow> 0 \<le> digit_val c"
  by (auto simp: is_digit_def digit_val_def)

lemma foldl_digits_nonneg:
  "list_all is_digit s \<Longrightarrow> 0 \<le> a \<Longrightarrow> 0 \<le> foldl (\<lambda>a c. 10 * a + digit_val c) a s"
  by (induction s arbitrary: a) (auto simp: digit_val_nonneg)

lemma digits_value_nonneg: "list_all is_digit s \<Longrightarrow> 0 \<le> digits_value s"
  unfolding digits_value_def by (rule foldl_digits_nonneg) simp_all

lemma hour24_nonneg: "0 \<le> h \<Longrightarrow> 0 \<le> hour24 h period"
  by (simp add: hour24_def)

section \<open>Tomorrow and today\<close>

lemma lower_tomorrow: "lower ''tomorrow'' = ''tomorrow''" by code_simp
lemma lower_today: "lower ''today'' = ''today''" by code_simp

lemma parse_tomorrow:
  assumes "valid_datetime now" and "day_ord now < MAXORD"
  shows "parse_time_expression ''tomorrow'' now =
     Inr (Some \<lparr>day_ord = day_ord now + 1, hour = 9, minute = 0, second = 0, microsecond = 0\<rparr>)"
  unfolding parse_time_expression_def lower_tomorrow Let_def
  by (simp add: add_days_one [OF assms] replace_time_def)

lemma parse_today:
  "parse_time_expression ''today'' now =
     Inr (Some \<lparr>day_ord = day_ord now, hour = 18, minute = 0, second = 0, microsecond = 0\<rparr>)"
  unfolding parse_time_expression_def lower_today Let_def
  by (simp add: replace_time_def)

lemma by_tomorrow_match:
  "map_option (\<lambda>m. strip (the (group m 1))) (re_search by_pattern ''finish report by tomorrow'')
     = Some ''tomorrow''"
  by code_simp

lemma extract_due_date_by:
  "map_option (\<lambda>m. strip (the (group m 1))) (re_search by_pattern text) = Some ts \<Longrightarrow>
     extract_due_date now text = parse_time_expression ts now"
  by (auto simp: extract_due_date_def)

lemma extract_by_tomorrow:
  "extract_due_date now ''finish report by tomorrow'' = parse_time_expression ''tomorrow'' now"
  using by_tomorrow_match by (rule extract_due_date_by)

text \<open>
  C7. For a reference time that is not on the last day the calendar supports, "tomorrow"
  resolves to the day after the reference day at 09:00:00, whatever the time of day of
  the reference, also through the extractor on "finish report by tomorrow"; "today"
  resolves to the reference day at 18:00:00, with no shift forward when that moment is
  already past.
\<close>

theorem tomorrow_today_resolution:
  "(valid_datetime now \<and> day_ord now < MAXORD \<longrightarrow>
      parse_time_expression ''tomorrow'' now =
        Inr (Some \<lparr>day_ord = day_ord now + 1, hour = 9, minute = 0, second = 0, microsecond = 0\<rparr>)
    \<and> extract_due_date now ''finish report by tomorrow'' =
        Inr (Some \<lparr>day_ord = day_ord now + 1, hour = 9, minute = 0, second = 0, microsecond = 0\<rparr>))
   \<and> parse_time_expression ''today'' now =
        Inr (Some \<lparr>day_ord = day_ord now, hour = 18, minute = 0, second = 0, microsecond = 0\<rparr>)"
  using parse_tomorrow [of now] parse_today [of now] extract_by_tomorrow [of now] by simp

theorem tomorrow_today_resolution_witness:
  "valid_datetime sample_evening \<and> day_ord sample_evening < MAXORD
   \<and> parse_time_expression ''tomorrow'' sample_evening =
        Inr (Some \<lparr>day_ord = 738887, hour = 9, minute = 0, second = 0, microsecond = 0\<rparr>)
   \<and> parse_time_expression ''today'' sample_evening =
        Inr (Some \<lparr>day_ord = 738886, hour = 18, minute = 0, second = 0, microsecond = 0\<rparr>)
   \<and> dt_le \<lparr>day_ord = 738886, hour = 18, minute = 0, second = 0, microsecond = 0\<rparr> sample_evening"
proof -
  have v: "valid_datetime sample_evening \<and> day_ord sample_evening < MAXORD"
    by (simp add: valid_datetime_def sample_evening_def MAXORD_def)
  have d: "day_ord sample_evening = 738886" by (simp add: sample_evening_def)
  have l: "dt_le \<lparr>day_ord = 738886, hour = 18, minute = 0, second = 0, microsecond = 0\<rparr> sample_evening"
    by (simp add: dt_le_def sample_evening_def)
  from tomorrow_today_resolution [of sample_evening] v d l show ?thesis by simp
qed

section \<open>Clock times\<close>

lemma parse_clock:
  assumes hh: "hh \<noteq> []" "length hh \<le> 2" "list_all is_digit hh"
    and mm: "case mm of None \<Rightarrow> True | Some m \<Rightarrow> length m = 2 \<and> list_all is_digit m"
    and ws: "list_all is_space ws"
    and per: "period \<in> {[], ''am'', ''pm''}"
  shows "parse_time_expression (clock_text hh mm ws period) now =
     (case replace_time now (hour24 (digits_value hh) period)
             (case mm of None \<Rightarrow> 0 | Some m \<Rightarrow> digits_value m) of
        Inl e \<Rightarrow> Inl e
      | Inr result_time \<Rightarrow>
          if dt_le result_time now then map_sum id Some (add_days result_time 1)
          else Inr (Some result_time))"
proof -
  let ?T = "clock_text hh mm ws period"
  have low: "lower ?T = ?T" using hh(3) mm ws per by (rule lower_clock_text)
  from clock_text_not_keyword [OF hh(1) hh(3), of mm ws period]
  have nk: "?T \<noteq> ''tomorrow''" "?T \<noteq> ''today''" "?T \<noteq> ''noon''" "?T \<noteq> ''midnight''"
    by auto
  from time_pattern_clock [OF hh mm ws per] obtain m where
    m: "re_match time_pattern ?T = Some m" and g1: "group m 1 = Some hh" and g2: "group m 2 = mm"
    and g3: "group m 3 = (if period = [] then None else Some period)"
    by blast
  have hv: "py_int (the (group m 1)) = Inr (digits_value hh)"
    unfolding g1 using hh by (simp add: py_int_def int_max_str_digits_def)
  have mv: "(case group m 2 of None \<Rightarrow> Inr 0 | Some g \<Rightarrow> if g = [] then Inr 0 else py_int g)
      = Inr (case mm of None \<Rightarrow> 0 | Some m \<Rightarrow> digits_value m)"
    using mm by (auto simp: g2 py_int_def int_max_str_digits_def split: option.splits)
  have h1: "(if group m 3 = Some ''pm'' \<and> digits_value hh \<noteq> 12 then digits_value hh + 12
             else if group m 3 = Some ''am'' \<and> digits_value hh = 12 then 0
             else digits_value hh) = hour24 (digits_value hh) period"
    using per by (auto simp: g3 hour24_def)
  show ?thesis
    unfolding parse_time_expression_def Let_def low
    by (simp only: nk if_False m option.case hv mv sum.case h1)
qed


lemma at_3pm_example:
  "extract_due_date sample_now ''remind me to call mom at 3 pm'' =
     Inr (Some \<lparr>day_ord = 738886, hour = 15, minute = 0, second = 0, microsecond = 0\<rparr>)"
  by code_simp

lemma at_13pm_recognized:
  "map_option (\<lambda>m. strip (the (group m 1))) (re_search at_pattern ''add lunch at 13 pm'')
     = Some ''13 pm''"
  by code_simp

text \<open>
  C4, as stated, fails: "13 pm" and "24" are clock-time expressions that the extractor
  recognizes, and for them no moment is returned, on the reference day or the day after.
\<close>

theorem clock_time_resolution_counterexample:
  "map_option (\<lambda>m. strip (the (group m 1))) (re_search at_pattern ''add lunch at 13 pm'')
     = Some ''13 pm''
   \<and> extract_due_date sample_now ''add lunch at 13 pm'' = Inl ValueError
   \<and> extract_due_date sample_now ''add lunch at 24'' = Inl ValueError"
proof -
  have 1: "extract_due_date sample_now ''add lunch at 13 pm'' = Inl ValueError" by code_simp
  have 2: "extract_due_date sample_now ''add lunch at 24'' = Inl ValueError" by code_simp
  from at_13pm_recognized 1 2 show ?thesis by blast
qed

text \<open>
  C4, amended. For a clock time written as one or two hour digits, an optional colon and
  two minute digits, optional white space and an optional \<open>am\<close> or \<open>pm\<close>, that denotes a
  time of day (hour below 24 after the 12-hour conversion, minute below 60), and a
  reference time not on the last supported day: \<open>pm\<close> adds 12 to an hour other than 12 and
  \<open>am\<close> turns hour 12 into 0; the time is put on the reference day with seconds and
  microseconds zero; when that moment is at or before the reference time the result is
  the same time exactly one day later, and otherwise it is that moment itself.
  "remind me to call mom at 3 pm" at 2024-01-01T10:00:00 gives 15:00:00 that day.
\<close>

theorem clock_time_resolution:
  assumes "hh \<noteq> []" "length hh \<le> 2" "list_all is_digit hh"
    and "case mm of None \<Rightarrow> True | Some m \<Rightarrow> length m = 2 \<and> list_all is_digit m"
    and "list_all is_space ws"
    and "period \<in> {[], ''am'', ''pm''}"
    and "hour24 (digits_value hh) period < 24"
    and "(case mm of None \<Rightarrow> 0 | Some m \<Rightarrow> digits_value m) < 60"
    and "valid_datetime now" "day_ord now < MAXORD"
  shows "parse_time_expression (clock_text hh mm ws period) now =
     Inr (Some (let anchored = now\<lparr>hour := hour24 (digits_value hh) period,
                                   minute := (case mm of None \<Rightarrow> 0 | Some m \<Rightarrow> digits_value m),
                                   second := 0, microsecond := 0\<rparr>
                in if dt_le anchored now then anchored\<lparr>day_ord := day_ord now + 1\<rparr>
                   else anchored))
   \<and> extract_due_date sample_now ''remind me to call mom at 3 pm'' =
       Inr (Some \<lparr>day_ord = 738886, hour = 15, minute = 0, second = 0, microsecond = 0\<rparr>)"
proof -
  let ?h = "hour24 (digits_value hh) period"
  let ?m = "case mm of None \<Rightarrow> 0 | Some m \<Rightarrow> digits_value m"
  let ?a = "now\<lparr>hour := ?h, minute := ?m, second := 0, microsecond := 0\<rparr>"
  have h0: "0 \<le> ?h" using assms(3) by (intro hour24_nonneg digits_value_nonneg)
  have m0: "0 \<le> ?m" using assms(4) by (auto split: option.splits intro: digits_value_nonneg)
  have rt: "replace_time now ?h ?m = Inr ?a"
    using h0 m0 assms(7,8) by (simp add: replace_time_def)
  have va: "valid_datetime ?a"
    using assms(9) h0 m0 assms(7,8) by (simp add: valid_datetime_def)
  have da: "day_ord ?a < MAXORD" using assms(10) by simp
  have ad: "add_days ?a 1 = Inr (?a\<lparr>day_ord := day_ord now + 1\<rparr>)"
    using add_days_one [OF va da] by simp
  have "parse_time_expression (clock_text hh mm ws period) now =
      Inr (Some (if dt_le ?a now then ?a\<lparr>day_ord := day_ord now + 1\<rparr> else ?a))"
    unfolding parse_clock [OF assms(1-6)] rt sum.case ad by simp
  then show ?thesis using at_3pm_example by (simp add: Let_def)
qed

theorem clock_time_resolution_witness:
  "parse_time_expression ''9'' sample_now =
     Inr (Some \<lparr>day_ord = 738887, hour = 9, minute = 0, second = 0, microsecond = 0\<rparr>)
   \<and> parse_time_expression ''11:30 pm'' sample_evening =
     Inr (Some \<lparr>day_ord = 738886, hour = 23, minute = 30, second = 0, microsecond = 0\<rparr>)
   \<and> parse_time_expression ''12 am'' sample_now =
     Inr (Some \<lparr>day_ord = 738887, hour = 0, minute = 0, second = 0, microsecond = 0\<rparr>)"
proof -
  have v: "valid_datetime sample_now" "day_ord sample_now < MAXORD"
    "valid_datetime sample_evening" "day_ord sample_evening < MAXORD"
    by (simp_all add: valid_datetime_def sample_now_def sample_evening_def MAXORD_def)
  have dv: "digits_value ''9'' = 9" "digits_value ''11'' = 11" "digits_value ''30'' = 30"
    "digits_value ''12'' = 12"
    by code_simp+
  have sp: "list_all is_space '' ''" "list_all is_space []" by (simp_all add: is_space_def)
  have dg: "list_all is_digit ''9''" "list_all is_digit ''11''" "list_all is_digit ''30''"
    "list_all is_digit ''12''"
    by (simp_all add: is_digit_def)
  have t: "clock_text ''9'' None [] [] = ''9''"
    "clock_text ''11'' (Some ''30'') '' '' ''pm'' = ''11:30 pm''"
    "clock_text ''12'' None '' '' ''am'' = ''12 am''"
    by (simp_all add: clock_text_def)
  from clock_time_resolution [of "''9''" None "[]" "[]" sample_now] v dv sp dg
  have 1: "parse_time_expression ''9'' sample_now =
     Inr (Some \<lparr>day_ord = 738887, hour = 9, minute = 0, second = 0, microsecond = 0\<rparr>)"
    unfolding t by (simp add: hour24_def dt_le_def sample_now_def Let_def)
  from clock_time_resolution [of "''11''" "Some ''30''" "'' ''" "''pm''" sample_evening] v dv sp dg
  have 2: "parse_time_expression ''11:30 pm'' sample_evening =
     Inr (Some \<lparr>day_ord = 738886, hour = 23, minute = 30, second = 0, microsecond = 0\<rparr>)"
    unfolding t by (simp add: hour24_def dt_le_def sample_evening_def Let_def)
  from clock_time_resolution [of "''12''" None "'' ''" "''am''" sample_now] v dv sp dg
  have 3: "parse_time_expression ''12 am'' sample_now =
     Inr (Some \<lparr>day_ord = 738887, hour = 0, minute = 0, second = 0, microsecond = 0\<rparr>)"
    unfolding t by (simp add: hour24_def dt_le_def sample_now_def Let_def)
  from 1 2 3 show ?thesis by simp
qed

section \<open>Due-date extraction on out-of-range clock digits and on next\<close>

lemma extract_due_date_at:
  "Option.is_none (re_search by_pattern text) \<Longrightarrow>
   map_option (\<lambda>m. strip (the (group m 1))) (re_search at_pattern text) = Some ts \<Longrightarrow>
     extract_due_date now text = parse_time_expression ts now"
  by (auto simp: extract_due_date_def Option.is_none_def)

lemma parse_natural_language_raise:
  "extract_due_date now (lower u) = Inl e \<Longrightarrow> parse_natural_language now u = Inl e"
  by (simp add: parse_natural_language_def)

lemma parse_hour_25: "parse_time_expression ''25'' now = Inl ValueError"
proof -
  have t: "clock_text ''25'' None [] [] = ''25''" by (simp add: clock_text_def)
  have d: "list_all is_digit ''25''" by (simp add: is_digit_def)
  have v: "digits_value ''25'' = 25" by code_simp
  from parse_clock [of "''25''" None "[]" "[]" now] d
  show ?thesis unfolding t by (simp add: v hour24_def replace_time_def)
qed

lemma parse_minute_75: "parse_time_expression ''7:75'' now = Inl ValueError"
proof -
  have t: "clock_text ''7'' (Some ''75'') [] [] = ''7:75''" by (simp add: clock_text_def)
  have d: "list_all is_digit ''7''" "list_all is_digit ''75''" by (simp_all add: is_digit_def)
  have v: "digits_value ''7'' = 7" "digits_value ''75'' = 75" by code_simp+
  from parse_clock [of "''7''" "Some ''75''" "[]" "[]" now] d
  show ?thesis unfolding t by (simp add: v hour24_def replace_time_def)
qed

text \<open>
  C1. At any reference time, parsing "meet at 25" or "call by 7:75" does not return a
  record: the clock pattern accepts any one or two hour digits and any two minute
  digits, and \<^verbatim>\<open>replace(hour=25, ...)\<close> and \<^verbatim>\<open>replace(minute=75, ...)\<close> raise
  \<^verbatim>\<open>ValueError\<close>, which nothing on the way out of \<^verbatim>\<open>parse_natural_language\<close>
  catches.
\<close>

theorem parse_natural_language_raises:
  "parse_natural_language now ''meet at 25'' = Inl ValueError
   \<and> parse_natural_language now ''call by 7:75'' = Inl ValueError"
proof -
  have l: "lower ''meet at 25'' = ''meet at 25''" "lower ''call by 7:75'' = ''call by 7:75''"
    by code_simp+
  have b1: "Option.is_none (re_search by_pattern ''meet at 25'')" by code_simp
  have a1: "map_option (\<lambda>m. strip (the (group m 1))) (re_search at_pattern ''meet at 25'')
      = Some ''25''"
    by code_simp
  have b2: "map_option (\<lambda>m. strip (the (group m 1))) (re_search by_pattern ''call by 7:75'')
      = Some ''7:75''"
    by code_simp
  have 1: "extract_due_date now (lower ''meet at 25'') = Inl ValueError"
    unfolding l extract_due_date_at [OF b1 a1] by (rule parse_hour_25)
  have 2: "extract_due_date now (lower ''call by 7:75'') = Inl ValueError"
    unfolding l extract_due_date_by [OF b2] by (rule parse_minute_75)
  from 1 2 show ?thesis by (simp add: parse_natural_language_raise)
qed

lemma parse_next_week: "parse_time_expression ''next week'' now = Inr None"
proof -
  have l: "lower ''next week'' = ''next week''" by code_simp
  have m: "Option.is_none (re_match time_pattern ''next week'')" by code_simp
  then have "re_match time_pattern ''next week'' = None" by (simp add: Option.is_none_def)
  then show ?thesis unfolding parse_time_expression_def Let_def l by simp
qed

text \<open>
  C2. At any reference time, "finish by next week at 5 pm" has no due date: the \<open>by\<close>
  pattern finds "next week", which resolves to nothing, and the function returns that
  result without trying the \<open>at\<close> pattern, although that pattern finds "5 pm" in the
  same text and "finish at 5 pm" alone resolves to 17:00:00.
\<close>

theorem by_next_word_stops_extraction:
  "extract_due_date now ''finish by next week at 5 pm'' = Inr None
   \<and> map_option (\<lambda>m. strip (the (group m 1))) (re_search at_pattern ''finish by next week at 5 pm'')
       = Some ''5 pm''
   \<and> extract_due_date sample_now ''finish at 5 pm'' =
       Inr (Some \<lparr>day_ord = 738886, hour = 17, minute = 0, second = 0, microsecond = 0\<rparr>)"
proof -
  have b: "map_option (\<lambda>m. strip (the (group m 1)))
      (re_search by_pattern ''finish by next week at 5 pm'') = Some ''next week''"
    by code_simp
  have 1: "extract_due_date now ''finish by next week at 5 pm'' = Inr None"
    unfolding extract_due_date_by [OF b] by (rule parse_next_week)
  have 2: "map_option (\<lambda>m. strip (the (group m 1)))
      (re_search at_pattern ''finish by next week at 5 pm'') = Some ''5 pm''"
    by code_simp
  have 3: "extract_due_date sample_now ''finish at 5 pm'' =
       Inr (Some \<lparr>day_ord = 738886, hour = 17, minute = 0, second = 0, microsecond = 0\<rparr>)"
    by code_simp
  from 1 2 3 show ?thesis by blast
qed

section \<open>The title\<close>

lemma strip_nonempty_iff: "strip s \<noteq> [] \<longleftrightarrow> (\<exists>c \<in> set s. \<not> is_space c)"
proof
  assume "strip s \<noteq> []"
  have "dropWhile is_space s \<noteq> []"
  proof
    assume e: "dropWhile is_space s = []"
    have "strip s = []" unfolding strip_def e by simp
    with \<open>strip s \<noteq> []\<close> show False by simp
  qed
  then show "\<exists>c \<in> set s. \<not> is_space c"
    using dropWhile_eq_Nil_conv [of is_space s] by blast
next
  assume "\<exists>c \<in> set s. \<not> is_space c"
  then have "dropWhile is_space s \<noteq> []"
    using dropWhile_eq_Nil_conv [of is_space s] by blast
  then have h: "\<not> is_space (hd (dropWhile is_space s))" by (rule hd_dropWhile)
  have "hd (dropWhile is_space s) \<in> set (rev (dropWhile is_space s))"
    using \<open>dropWhile is_space s \<noteq> []\<close> by simp
  with h have "dropWhile is_space (rev (dropWhile is_space s)) \<noteq> []"
    using dropWhile_eq_Nil_conv [of is_space "rev (dropWhile is_space s)"] by blast
  then show "strip s \<noteq> []" by (simp add: strip_def)
qed

lemma strip_ends:
  "strip s = [] \<or> (\<not> is_space (hd (strip s)) \<and> \<not> is_space (last (strip s)))"
proof (cases "strip s = []")
  case True
  then show ?thesis by simp
next
  case False
  let ?t = "dropWhile is_space s"
  let ?n = "length (takeWhile is_space (rev ?t))"
  from False have d: "dropWhile is_space (rev ?t) \<noteq> []" by (simp add: strip_def)
  have t: "?t \<noteq> []"
  proof
    assume e: "?t = []"
    have "dropWhile is_space (rev ?t) = []" unfolding e by simp
    with d show False by blast
  qed
  have "last (strip s) = hd (dropWhile is_space (rev ?t))"
    using d by (simp add: strip_def last_rev)
  with hd_dropWhile [OF d] have l: "\<not> is_space (last (strip s))" by simp
  have "dropWhile is_space (rev ?t) = drop ?n (rev ?t)" by (rule dropWhile_eq_drop)
  then have "strip s = take (length ?t - ?n) ?t" by (simp add: strip_def rev_drop)
  with False have "hd (strip s) = hd ?t" by (cases "length ?t - ?n") (auto simp: hd_take)
  with hd_dropWhile [OF t] have "\<not> is_space (hd (strip s))" by simp
  with l show ?thesis by simp
qed

lemma space_led_no_match:
  "\<not> is_space x \<Longrightarrow> re_match (Seq (Rep 1 None is_space) r) (x # xs) = None"
  by (simp add: re_match_def)

lemma re_sub_del_keeps_head:
  "\<not> is_space x \<Longrightarrow>
     re_sub_del (Seq (Rep 1 None is_space) r) (x # xs) = x # re_sub_del (Seq (Rep 1 None is_space) r) xs"
  using space_led_no_match [of x r xs] by (simp del: rmatch.simps)

lemma patterns_to_remove_space_led:
  "r \<in> set patterns_to_remove \<Longrightarrow> \<exists>r'. r = Seq (Rep 1 None is_space) r'"
  by (auto simp: patterns_to_remove_def)

lemma foldl_sub_keeps_head:
  assumes "\<not> is_space x" and "\<forall>r \<in> set ps. \<exists>r'. r = Seq (Rep 1 None is_space) r'"
  shows "\<exists>ys. foldl (\<lambda>cleaned_text pattern. re_sub_del pattern cleaned_text) (x # xs) ps = x # ys"
  using assms(2)
proof (induction ps arbitrary: xs)
  case Nil
  then show ?case by simp
next
  case (Cons p ps)
  then obtain r' where p: "p = Seq (Rep 1 None is_space) r'" by auto
  have "re_sub_del p (x # xs) = x # re_sub_del p xs"
    unfolding p using assms(1) by (rule re_sub_del_keeps_head)
  moreover have "\<forall>r \<in> set ps. \<exists>r'. r = Seq (Rep 1 None is_space) r'" using Cons.prems by simp
  ultimately show ?case using Cons.IH by simp
qed

lemma clean_title_nonempty:
  assumes "\<not> is_space x"
  shows "clean_title_from_date (x # xs) d \<noteq> []"
proof -
  from foldl_sub_keeps_head [OF assms, of patterns_to_remove xs] patterns_to_remove_space_led
  obtain ys where
    "foldl (\<lambda>cleaned_text pattern. re_sub_del pattern cleaned_text) (x # xs) patterns_to_remove = x # ys"
    by blast
  then have "clean_title_from_date (x # xs) d = strip (x # ys)"
    by (simp add: clean_title_from_date_def)
  moreover have "strip (x # ys) \<noteq> []" using assms by (auto simp: strip_nonempty_iff)
  ultimately show ?thesis by simp
qed

lemma parse_title:
  assumes "parse_natural_language now u = Inr p"
  shows "title p = (case due_date p of None \<Rightarrow> strip u | Some d \<Rightarrow> clean_title_from_date u d)"
  using assms by (auto simp: parse_natural_language_def Let_def split: sum.splits)

text \<open>
  C3, as stated, fails: the title is empty for an utterance of white space only, and for
  " at 5", where a due date is recognized and deleting the date phrase leaves nothing.
\<close>

theorem title_trimmed_counterexample:
  "map_sum id title (parse_natural_language sample_now ''   '') = Inr []
   \<and> map_sum id title (parse_natural_language sample_now '' at 5'') = Inr []
   \<and> map_sum id due_date (parse_natural_language sample_now '' at 5'') =
       Inr (Some \<lparr>day_ord = 738887, hour = 5, minute = 0, second = 0, microsecond = 0\<rparr>)"
  by code_simp

text \<open>
  C3, amended. Whenever parsing returns a record: with no due date recognized the title
  is the raw input trimmed, and it is non-empty exactly when the input has a character
  that is not white space; with a due date recognized the title is the input with the
  date and time phrases deleted, then trimmed; in both cases the title is non-empty when
  the input starts with a character that is not white space, and the title has no white
  space at either end.
\<close>

theorem title_trimmed:
  assumes "parse_natural_language now u = Inr p"
  shows "(due_date p = None \<longrightarrow>
            title p = strip u \<and> (title p \<noteq> [] \<longleftrightarrow> (\<exists>c \<in> set u. \<not> is_space c)))
       \<and> (\<forall>d. due_date p = Some d \<longrightarrow> title p = clean_title_from_date u d)
       \<and> (u \<noteq> [] \<and> \<not> is_space (hd u) \<longrightarrow> title p \<noteq> [])
       \<and> (title p = [] \<or> (\<not> is_space (hd (title p)) \<and> \<not> is_space (last (title p))))"
proof -
  note t = parse_title [OF assms]
  have 1: "due_date p = None \<longrightarrow>
            title p = strip u \<and> (title p \<noteq> [] \<longleftrightarrow> (\<exists>c \<in> set u. \<not> is_space c))"
    using t by (simp add: strip_nonempty_iff)
  have 2: "\<forall>d. due_date p = Some d \<longrightarrow> title p = clean_title_from_date u d"
    using t by simp
  have 3: "u \<noteq> [] \<and> \<not> is_space (hd u) \<longrightarrow> title p \<noteq> []"
  proof
    assume a: "u \<noteq> [] \<and> \<not> is_space (hd u)"
    then obtain x xs where u: "u = x # xs" and x: "\<not> is_space x" by (cases u) auto
    show "title p \<noteq> []"
    proof (cases "due_date p")
      case None
      with t u x show ?thesis by (auto simp: strip_nonempty_iff)
    next
      case (Some d)
      with t u clean_title_nonempty [OF x, of xs d] show ?thesis by simp
    qed
  qed
  have 4: "title p = [] \<or> (\<not> is_space (hd (title p)) \<and> \<not> is_space (last (title p)))"
  proof (cases "due_date p")
    case None
    with t strip_ends [of u] show ?thesis by simp
  next
    case (Some d)
    with t have "title p = strip (foldl (\<lambda>cleaned_text pattern. re_sub_del pattern cleaned_text)
                  u patterns_to_remove)"
      by (simp add: clean_title_from_date_def)
    with strip_ends show ?thesis by metis
  qed
  from 1 2 3 4 show ?thesis by blast
qed

theorem title_trimmed_witness:
  "parse_natural_language sample_now ''Remind me to call Mom at 3 PM'' =
     Inr \<lparr>title = ''Remind me to call Mom'',
          due_date = Some \<lparr>day_ord = 738886, hour = 15, minute = 0, second = 0, microsecond = 0\<rparr>,
          priority = ''medium'', description = ''call Mom''\<rparr>
   \<and> ''Remind me to call Mom'' \<noteq> []
   \<and> ''Remind me to call Mom'' = clean_title_from_date ''Remind me to call Mom at 3 PM''
        \<lparr>day_ord = 738886, hour = 15, minute = 0, second = 0, microsecond = 0\<rparr>
   \<and> parse_natural_language sample_now ''  buy milk '' =
     Inr \<lparr>title = ''buy milk'', due_date = None, priority = ''medium'', description = []\<rparr>
   \<and> ''buy milk'' = strip ''  buy milk ''"
proof -
  have p1: "parse_natural_language sample_now ''Remind me to call Mom at 3 PM'' =
     Inr \<lparr>title = ''Remind me to call Mom'',
          due_date = Some \<lparr>day_ord = 738886, hour = 15, minute = 0, second = 0, microsecond = 0\<rparr>,
          priority = ''medium'', description = ''call Mom''\<rparr>"
    by code_simp
  have p2: "parse_natural_language sample_now ''  buy milk '' =
     Inr \<lparr>title = ''buy milk'', due_date = None, priority = ''medium'', description = []\<rparr>"
    by code_simp
  have h: "''Remind me to call Mom at 3 PM'' \<noteq> [] \<and> \<not> is_space (hd ''Remind me to call Mom at 3 PM'')"
    by (simp add: is_space_def)
  note T1 = title_trimmed [OF p1]
  from T1 have "''Remind me to call Mom at 3 PM'' \<noteq> [] \<and>
      \<not> is_space (hd ''Remind me to call Mom at 3 PM'') \<longrightarrow>
      title \<lparr>title = ''Remind me to call Mom'',
          due_date = Some \<lparr>day_ord = 738886, hour = 15, minute = 0, second = 0, microsecond = 0\<rparr>,
          priority = ''medium'', description = ''call Mom''\<rparr> \<noteq> []"
    by blast
  with h have 1: "''Remind me to call Mom'' \<noteq> []" by simp
  from T1 have "\<forall>d. due_date \<lparr>title = ''Remind me to call Mom'',
          due_date = Some \<lparr>day_ord = 738886, hour = 15, minute = 0, second = 0, microsecond = 0\<rparr>,
          priority = ''medium'', description = ''call Mom''\<rparr> = Some d \<longrightarrow>
      title \<lparr>title = ''Remind me to call Mom'',
          due_date = Some \<lparr>day_ord = 738886, hour = 15, minute = 0, second = 0, microsecond = 0\<rparr>,
          priority = ''medium'', description = ''call Mom''\<rparr> =
      clean_title_from_date ''Remind me to call Mom at 3 PM'' d"
    by blast
  from this [rule_format,
      of "\<lparr>day_ord = 738886, hour = 15, minute = 0, second = 0, microsecond = 0\<rparr>"]
  have 2: "''Remind me to call Mom'' = clean_title_from_date ''Remind me to call Mom at 3 PM''
        \<lparr>day_ord = 738886, hour = 15, minute = 0, second = 0, microsecond = 0\<rparr>"
    by simp
  from title_trimmed [OF p2] have "due_date \<lparr>title = ''buy milk'', due_date = None,
      priority = ''medium'', description = []\<rparr> = None \<longrightarrow>
      title \<lparr>title = ''buy milk'', due_date = None, priority = ''medium'', description = []\<rparr>
        = strip ''  buy milk ''"
    by blast
  then have 3: "''buy milk'' = strip ''  buy milk ''" by simp
  from p1 p2 1 2 3 show ?thesis by blast
qed

section \<open>Dependence on the wall clock\<close>

lemma map_sum_Some_Inr: "map_sum id Some x = Inr d \<Longrightarrow> d \<noteq> None"
  by (cases x) auto

lemma parse_time_expression_None:
  assumes "parse_time_expression ts now = Inr d"
  shows "(d = None) =
     (lower ts \<notin> {''tomorrow'', ''today'', ''noon'', ''midnight''}
      \<and> Option.is_none (re_match time_pattern (lower ts)))"
proof (cases "lower ts \<in> {''tomorrow'', ''today'', ''noon'', ''midnight''}")
  case True
  then consider "lower ts = ''tomorrow''" | "lower ts = ''today''" | "lower ts = ''noon''"
    | "lower ts = ''midnight''"
    by auto
  then have "d \<noteq> None"
  proof cases
    case 1
    with assms show ?thesis
      by (auto simp: parse_time_expression_def Let_def split: sum.splits dest: map_sum_Some_Inr)
  next
    case 2
    with assms show ?thesis
      by (auto simp: parse_time_expression_def Let_def dest: map_sum_Some_Inr)
  next
    case 3
    with assms show ?thesis
      by (auto simp: parse_time_expression_def Let_def dest: map_sum_Some_Inr)
  next
    case 4
    with assms show ?thesis
      by (auto simp: parse_time_expression_def Let_def dest: map_sum_Some_Inr)
  qed
  with True show ?thesis by simp
next
  case False
  then have nk: "lower ts \<noteq> ''tomorrow''" "lower ts \<noteq> ''today''" "lower ts \<noteq> ''noon''"
    "lower ts \<noteq> ''midnight''"
    by auto
  show ?thesis
  proof (cases "re_match time_pattern (lower ts)")
    case None
    with assms nk have "d = None" by (simp add: parse_time_expression_def Let_def)
    with False None show ?thesis by simp
  next
    case (Some m)
    from assms have "d \<noteq> None"
      unfolding parse_time_expression_def Let_def
      by (simp only: nk if_False Some option.case)
         (auto split: sum.splits if_splits dest: map_sum_Some_Inr)
    with Some show ?thesis by simp
  qed
qed

lemma calculate_relative_time_None:
  assumes "calculate_relative_time amount unit now = Inr d"
  shows "(d = None) =
     (\<not> startswith unit ''minute'' \<and> \<not> startswith unit ''hour'' \<and> \<not> startswith unit ''day'')"
  using assms unfolding calculate_relative_time_def
  by (auto split: if_splits dest: map_sum_Some_Inr simp del: startswith.simps)

lemma extract_due_date_presence:
  assumes "extract_due_date now text = Inr d" and "extract_due_date now' text = Inr d'"
  shows "(d = None) = (d' = None)"
proof (cases "re_search by_pattern text")
  case (Some m)
  with assms show ?thesis
    by (simp add: extract_due_date_def parse_time_expression_None)
next
  case n1: None
  show ?thesis
  proof (cases "re_search at_pattern text")
    case (Some m)
    with assms n1 show ?thesis
      by (simp add: extract_due_date_def parse_time_expression_None)
  next
    case n2: None
    show ?thesis
    proof (cases "re_search relative_pattern text")
      case None
      with assms n1 n2 show ?thesis by (simp add: extract_due_date_def)
    next
      case (Some m)
      show ?thesis
      proof (cases "py_int (the (group m 1))")
        case (Inl e)
        with assms n1 n2 Some show ?thesis by (simp add: extract_due_date_def)
      next
        case (Inr amount)
        with assms n1 n2 Some show ?thesis
          by (simp add: extract_due_date_def calculate_relative_time_None)
      qed
    qed
  qed
qed

text \<open>
  C6, as stated, fails: the program has no parameter for the reference time and reads the
  wall clock inside due-date extraction, so the same utterance parsed at 10:00:00 and at
  20:30:15 of one day gives two different records.
\<close>

theorem parse_depends_on_clock_counterexample:
  "map_sum id due_date (parse_natural_language sample_now ''call mom at 3 pm'') =
     Inr (Some \<lparr>day_ord = 738886, hour = 15, minute = 0, second = 0, microsecond = 0\<rparr>)
   \<and> map_sum id due_date (parse_natural_language sample_evening ''call mom at 3 pm'') =
     Inr (Some \<lparr>day_ord = 738887, hour = 15, minute = 0, second = 0, microsecond = 0\<rparr>)
   \<and> parse_natural_language sample_now ''call mom at 3 pm'' \<noteq>
     parse_natural_language sample_evening ''call mom at 3 pm''"
proof -
  have 1: "map_sum id due_date (parse_natural_language sample_now ''call mom at 3 pm'') =
     Inr (Some \<lparr>day_ord = 738886, hour = 15, minute = 0, second = 0, microsecond = 0\<rparr>)"
    by code_simp
  have 2: "map_sum id due_date (parse_natural_language sample_evening ''call mom at 3 pm'') =
     Inr (Some \<lparr>day_ord = 738887, hour = 15, minute = 0, second = 0, microsecond = 0\<rparr>)"
    by code_simp
  from 1 2 have "parse_natural_language sample_now ''call mom at 3 pm'' \<noteq>
     parse_natural_language sample_evening ''call mom at 3 pm''"
    by auto
  with 1 2 show ?thesis by blast
qed

text \<open>
  C6, amended. The result of parsing is determined by the utterance and the one wall-clock
  reading made in due-date extraction: two runs with the same utterance and the same
  reading return the same record, and for any two readings at which both runs return, the
  title, the priority and the description are the same and a due date is present in both
  records or in neither. Only the value of the due date depends on the reading.
\<close>

theorem parse_clock_independent:
  assumes "parse_natural_language now u = Inr p" and "parse_natural_language now' u = Inr p'"
  shows "title p = title p' \<and> priority p = priority p' \<and> description p = description p'
       \<and> (due_date p = None) = (due_date p' = None)
       \<and> (now = now' \<longrightarrow> p = p')"
proof -
  from assms(1) obtain d where d: "extract_due_date now (lower u) = Inr d"
    and p: "p = \<lparr>title = (case d of None \<Rightarrow> strip u | Some x \<Rightarrow> clean_title_from_date u x),
               due_date = d,
               priority = (case extract_priority (lower u) of None \<Rightarrow> ''medium'' | Some q \<Rightarrow> q),
               description = extract_description u\<rparr>"
    by (auto simp: parse_natural_language_def Let_def split: sum.splits)
  from assms(2) obtain d' where d': "extract_due_date now' (lower u) = Inr d'"
    and p': "p' = \<lparr>title = (case d' of None \<Rightarrow> strip u | Some x \<Rightarrow> clean_title_from_date u x),
               due_date = d',
               priority = (case extract_priority (lower u) of None \<Rightarrow> ''medium'' | Some q \<Rightarrow> q),
               description = extract_description u\<rparr>"
    by (auto simp: parse_natural_language_def Let_def split: sum.splits)
  note e = extract_due_date_presence [OF d d']
  have t: "title p = title p'"
    using e unfolding p p' by (auto simp: clean_title_from_date_def split: option.splits)
  have n: "now = now' \<longrightarrow> p = p'" using assms by auto
  from t e n show ?thesis unfolding p p' by simp
qed

theorem parse_clock_independent_witness:
  "title \<lparr>title = ''call mom'',
          due_date = Some \<lparr>day_ord = 738886, hour = 15, minute = 0, second = 0, microsecond = 0\<rparr>,
          priority = ''medium'', description = []\<rparr>
   = title \<lparr>title = ''call mom'',
          due_date = Some \<lparr>day_ord = 738887, hour = 15, minute = 0, second = 0, microsecond = 0\<rparr>,
          priority = ''medium'', description = []\<rparr>
   \<and> parse_natural_language sample_now ''call mom at 3 pm'' =
      Inr \<lparr>title = ''call mom'',
          due_date = Some \<lparr>day_ord = 738886, hour = 15, minute = 0, second = 0, microsecond = 0\<rparr>,
          priority = ''medium'', description = []\<rparr>
   \<and> parse_natural_language sample_evening ''call mom at 3 pm'' =
      Inr \<lparr>title = ''call mom'',
          due_date = Some \<lparr>day_ord = 738887, hour = 15, minute = 0, second = 0, microsecond = 0\<rparr>,
          priority = ''medium'', description = []\<rparr>"
proof -
  have 1: "parse_natural_language sample_now ''call mom at 3 pm'' =
      Inr \<lparr>title = ''call mom'',
          due_date = Some \<lparr>day_ord = 738886, hour = 15, minute = 0, second = 0, microsecond = 0\<rparr>,
          priority = ''medium'', description = []\<rparr>"
    by code_simp
  have 2: "parse_natural_language sample_evening ''call mom at 3 pm'' =
      Inr \<lparr>title = ''call mom'',
          due_date = Some \<lparr>day_ord = 738887, hour = 15, minute = 0, second = 0, microsecond = 0\<rparr>,
          priority = ''medium'', description = []\<rparr>"
    by code_simp
  from parse_clock_independent [OF 1 2] 1 2 show ?thesis by blast
qed

section \<open>Task reference\<close>
























end
